theory Spec2Isabelle
  imports Complex_Main "HOL-Library.Multiset"
begin

section \<open>Conventions of the embedding\<close>

text \<open>
  The program is the JavaScript simulation under \<^verbatim>\<open>src/11-generative-agents/src\<close>:
  \<^verbatim>\<open>util.js\<close>, \<^verbatim>\<open>memory.js\<close> and \<^verbatim>\<open>world.js\<close> (which holds the classes \<^verbatim>\<open>World\<close> and
  \<^verbatim>\<open>Agent\<close>).

  \<^item> A JavaScript Number that holds a score, a weight, a coordinate or a distance is a
    \<^typ>\<open>real\<close>: arithmetic is exact, \<^verbatim>\<open>Math.sqrt\<close> is \<^const>\<open>sqrt\<close> and \<^verbatim>\<open>Math.log\<close> is \<^const>\<open>ln\<close>.
    Two computations are the exception and round every operation to the nearest IEEE
    double (section \<open>IEEE doubles\<close>): the recency of a score, because a power of 0.99
    underflows, and \<^verbatim>\<open>_moveTowardsDest\<close>, because the step it takes is the speed only up
    to rounding. Elsewhere rounding is not part of the model, and overflow and NaN are
    nowhere.
  \<^item> A Number that holds a count, an importance or an energy is an \<^typ>\<open>int\<close> or a
    \<^typ>\<open>nat\<close>; a \<^verbatim>\<open>Date\<close> is its \<^verbatim>\<open>getTime()\<close>, an \<^typ>\<open>int\<close> of milliseconds.
  \<^item> A string is a \<^typ>\<open>string\<close> of ASCII characters. The Unicode tables behind
    \<^verbatim>\<open>\p{L}\<close>, \<^verbatim>\<open>\p{N}\<close>, \<^verbatim>\<open>\s\<close> and \<^verbatim>\<open>toLowerCase\<close> belong to the runtime; the model
    classifies the ASCII range and treats every other character as punctuation.
  \<^item> A \<^verbatim>\<open>Map\<close> that the code iterates is an association list in insertion order; the
    document-frequency \<^verbatim>\<open>Map\<close>, which is only read by key, is a map \<open>string \<rightharpoonup> nat\<close>.
  \<^item> A method that mutates \<^verbatim>\<open>this\<close> takes the object and returns the updated one.
  \<^item> What the decision gateway answers is an argument of the function that awaits it.
\<close>

section \<open>util.js\<close>

text \<open>\<^verbatim>\<open>clamp(v, lo, hi) = Math.max(lo, Math.min(hi, v))\<close>\<close>

definition clamp :: "'a::linorder \<Rightarrow> 'a \<Rightarrow> 'a \<Rightarrow> 'a" where
  "clamp v lo hi = max lo (min hi v)"

text \<open>
  \<^verbatim>\<open>dist(a, b, c, d) = Math.hypot(a - c, b - d)\<close> in exact arithmetic: the Euclidean distance.
  \<open>dist_double\<close> of section \<open>IEEE doubles\<close> is the same function with every operation rounded.
\<close>

definition dist2d :: "real \<Rightarrow> real \<Rightarrow> real \<Rightarrow> real \<Rightarrow> real" where
  "dist2d a b c d = (let dx = a - c; dy = b - d in sqrt (dx * dx + dy * dy))"

text \<open>
  \<^verbatim>\<open>uniq(arr) = Array.from(new Set(arr))\<close>: a \<^verbatim>\<open>Set\<close> keeps the first occurrence of each
  element, in insertion order.
\<close>

definition uniq :: "'a list \<Rightarrow> 'a list" where
  "uniq arr = foldl (\<lambda>seen x. if x \<in> set seen then seen else seen @ [x]) [] arr"

text \<open>
  \<^verbatim>\<open>Array.prototype.slice(start, end)\<close> on integer arguments: a negative index counts
  from the end and every index is cut to the range of the array. \<open>js_slice_from\<close> is the
  call with one argument.
\<close>

definition js_index :: "int \<Rightarrow> nat \<Rightarrow> nat" where
  "js_index i len = (if i < 0 then nat (max (int len + i) 0) else min (nat i) len)"

definition js_slice :: "int \<Rightarrow> int \<Rightarrow> 'a list \<Rightarrow> 'a list" where
  "js_slice start fin xs =
     (let k = js_index start (length xs); final = js_index fin (length xs)
      in take (final - k) (drop k xs))"

definition js_slice_from :: "int \<Rightarrow> 'a list \<Rightarrow> 'a list" where
  "js_slice_from start xs = drop (js_index start (length xs)) xs"

section \<open>IEEE doubles\<close>

text \<open>
  A Number is a binary64 float. A real \<open>x\<close> other than 0 lies in a binade
  \<open>2^e \<le> |x| < 2^(e+1)\<close>; the doubles of that binade are the multiples of \<open>2^(e-52)\<close>, and
  below \<open>2^-1022\<close> (the subnormal range) they are the multiples of \<open>2^-1074\<close>. An operation
  returns the double nearest the exact result, a tie going to the even multiple. The
  largest double is not modelled: no value of a recency or of a movement comes near it.
\<close>

definition round_half_even :: "real \<Rightarrow> int" where
  "round_half_even r =
     (let f = \<lfloor>r\<rfloor>
      in if r - of_int f < 1 / 2 then f
         else if 1 / 2 < r - of_int f then f + 1
         else if even f then f else f + 1)"

definition double_exponent :: "real \<Rightarrow> int" where
  "double_exponent x = max \<lfloor>log 2 \<bar>x\<bar>\<rfloor> (- 1022)"

text \<open>The distance of two neighbouring doubles of the binade of \<open>x\<close>.\<close>

definition double_ulp :: "real \<Rightarrow> real" where
  "double_ulp x = 2 powr (of_int (double_exponent x) - 52)"

definition double_round :: "real \<Rightarrow> real" where
  "double_round x =
     (if x = 0 then 0
      else sgn x * (of_int (round_half_even (\<bar>x\<bar> / double_ulp x)) * double_ulp x))"

text \<open>
  \<^verbatim>\<open>Math.pow(b, ex)\<close> for a positive base: the double nearest the real power. (The language
  leaves the last place of \<^verbatim>\<open>Math.pow\<close> to the engine; the power is taken here as correctly
  rounded.)
\<close>

definition Math_pow :: "real \<Rightarrow> real \<Rightarrow> real" where
  "Math_pow b ex = double_round (b powr ex)"

text \<open>
  \<^verbatim>\<open>Math.hypot(a, b)\<close>, taken as correctly rounded in the same way, and \<^verbatim>\<open>dist(a, b, c, d)\<close> of
  \<^verbatim>\<open>util.js\<close> with its two subtractions rounded.
\<close>

definition Math_hypot :: "real \<Rightarrow> real \<Rightarrow> real" where
  "Math_hypot a b = double_round (sqrt (a * a + b * b))"

definition dist_double :: "real \<Rightarrow> real \<Rightarrow> real \<Rightarrow> real \<Rightarrow> real" where
  "dist_double a b c d = Math_hypot (double_round (a - c)) (double_round (b - d))"

text \<open>The double that the literal \<^verbatim>\<open>0.99\<close> denotes (lemma \<open>base_eq\<close>).\<close>

definition d099 :: real where
  "d099 = 4458563631096791 / 4503599627370496"

section \<open>memory.js\<close>

subsection \<open>Characters and the tokenizer\<close>

definition code :: "char \<Rightarrow> nat" where
  "code c = of_char c"

definition is_upper :: "char \<Rightarrow> bool" where
  "is_upper c = (65 \<le> code c \<and> code c \<le> 90)"

definition is_letter :: "char \<Rightarrow> bool" where
  "is_letter c = (is_upper c \<or> (97 \<le> code c \<and> code c \<le> 122))"

definition is_number :: "char \<Rightarrow> bool" where
  "is_number c = (48 \<le> code c \<and> code c \<le> 57)"

text \<open>The ASCII members of \<^verbatim>\<open>\s\<close>: tab, line feed, vertical tab, form feed, carriage return, space.\<close>

definition is_space :: "char \<Rightarrow> bool" where
  "is_space c = (code c \<in> {9, 10, 11, 12, 13, 32})"

definition to_lower :: "char \<Rightarrow> char" where
  "to_lower c = (if is_upper c then char_of (code c + 32) else c)"

definition toLowerCase :: "string \<Rightarrow> string" where
  "toLowerCase s = map to_lower s"

text \<open>
  \<^verbatim>\<open>s.replace(/[C]+/g, " ")\<close> for a character class \<open>C\<close>: every maximal run of characters of
  the class becomes one space.
\<close>

function replace_runs :: "(char \<Rightarrow> bool) \<Rightarrow> string \<Rightarrow> string" where
  "replace_runs P [] = []"
| "replace_runs P (c # cs) =
     (if P c then CHR '' '' # replace_runs P (dropWhile P cs) else c # replace_runs P cs)"
  by pat_completeness auto
termination
  by (relation "measure (\<lambda>(P, s). length s)") (auto simp: le_imp_less_Suc length_dropWhile_le)

definition trim :: "string \<Rightarrow> string" where
  "trim s = rev (dropWhile is_space (rev (dropWhile is_space s)))"

text \<open>\<^verbatim>\<open>s.split(sep)\<close> for a separator of one character.\<close>

fun split_on :: "char \<Rightarrow> string \<Rightarrow> string list" where
  "split_on sep [] = [[]]"
| "split_on sep (c # cs) =
     (if c = sep then [] # split_on sep cs
      else (case split_on sep cs of [] \<Rightarrow> [[c]] | w # ws \<Rightarrow> (c # w) # ws))"

definition STOPWORDS :: "string list" where
  "STOPWORDS =
     [''the'', ''a'', ''an'', ''and'', ''or'', ''to'', ''of'', ''in'', ''on'', ''for'', ''with'', ''at'',
      ''from'', ''by'', ''as'', ''is'', ''are'', ''was'', ''were'', ''be'',
      ''i'', ''you'', ''he'', ''she'', ''they'', ''we'', ''me'', ''my'', ''your'', ''his'', ''her'',
      ''their'', ''our'',
      ''this'', ''that'', ''it'', ''its'', ''there'', ''here'', ''then'', ''so'', ''but'']"

text \<open>
  \<^verbatim>\<open>tokenize(text)\<close>. The replacement of U+3000 is the identity on ASCII text. The second
  replacement strikes the runs of characters that are neither letters, numbers nor
  white space.
\<close>

definition tokenize :: "string \<Rightarrow> string list" where
  "tokenize text =
     (let cleaned =
            trim (replace_runs is_space
              (replace_runs (\<lambda>c. \<not> is_letter c \<and> \<not> is_number c \<and> \<not> is_space c)
                (toLowerCase text)))
      in if cleaned = [] then []
         else filter (\<lambda>t. t \<noteq> [] \<and> t \<notin> set STOPWORDS \<and> 2 \<le> length t) (split_on CHR '' '' cleaned))"

subsection \<open>A Map that is iterated: association lists in insertion order\<close>

text \<open>
  \<^verbatim>\<open>m.get(k)\<close> is \<^const>\<open>map_of\<close>. \<^verbatim>\<open>m.set(k, v)\<close> overwrites the value of a key that is
  present, where it stands, and appends a new key.
\<close>

fun map_set :: "('k \<times> 'v) list \<Rightarrow> 'k \<Rightarrow> 'v \<Rightarrow> ('k \<times> 'v) list" where
  "map_set [] k v = [(k, v)]"
| "map_set ((k', v') # m) k v = (if k' = k then (k, v) # m else (k', v') # map_set m k v)"

text \<open>\<^verbatim>\<open>for (const t of tokens) tf.set(t, (tf.get(t) ?? 0) + 1)\<close>\<close>

definition count_tokens :: "string list \<Rightarrow> (string \<times> nat) list" where
  "count_tokens tokens =
     foldl (\<lambda>tf t. map_set tf t ((case map_of tf t of None \<Rightarrow> 0 | Some c \<Rightarrow> c) + 1)) [] tokens"

text \<open>\<^verbatim>\<open>cosineSparse(vecA, vecB)\<close>: the first loop carries \<open>(dot, normA)\<close>.\<close>

definition cosineSparse :: "(string \<times> real) list \<Rightarrow> (string \<times> real) list \<Rightarrow> real" where
  "cosineSparse vecA vecB =
     (let (dot, normA) =
            foldl (\<lambda>(dot, normA) (k, wa).
                     (case map_of vecB k of None \<Rightarrow> dot | Some wb \<Rightarrow> dot + wa * wb,
                      normA + wa * wa))
                  (0, 0) vecA;
          normB = foldl (\<lambda>normB (k, wb). normB + wb * wb) 0 vecB
      in if normA = 0 \<or> normB = 0 then 0 else dot / (sqrt normA * sqrt normB))"

subsection \<open>MemoryRecord and MemoryStream\<close>

text \<open>
  An id is \<^verbatim>\<open>`${prefix}_${counter}`\<close>, kept as the pair of its parts. The fields \<^verbatim>\<open>id\<close>,
  \<^verbatim>\<open>time\<close>, \<^verbatim>\<open>text\<close> and \<^verbatim>\<open>type\<close> are \<open>rid\<close>, \<open>rtime\<close>, \<open>rtext\<close> and \<open>rtype\<close>. Every caller of
  the constructor gives an importance and a type, so its defaults are not modelled.
\<close>

type_synonym rec_id = "string \<times> nat"

record MemoryRecord =
  rid :: rec_id
  rtime :: int
  rtext :: string
  importance :: int
  rtype :: string
  tokens :: "string list"
  tf :: "(string \<times> nat) list"

definition new_MemoryRecord :: "rec_id \<Rightarrow> int \<Rightarrow> string \<Rightarrow> int \<Rightarrow> string \<Rightarrow> MemoryRecord" where
  "new_MemoryRecord i t txt imp ty =
     \<lparr>rid = i, rtime = t, rtext = txt, importance = imp, rtype = ty,
      tokens = tokenize txt, tf = count_tokens (tokenize txt)\<rparr>"

record MemoryStream =
  records :: "MemoryRecord list"
  df :: "string \<rightharpoonup> nat"

definition new_MemoryStream :: MemoryStream where
  "new_MemoryStream = \<lparr>records = [], df = Map.empty\<rparr>"

text \<open>\<^verbatim>\<open>this._df.get(t) ?? 0\<close>\<close>

definition df_count :: "(string \<rightharpoonup> nat) \<Rightarrow> string \<Rightarrow> nat" where
  "df_count m t = (case m t of None \<Rightarrow> 0 | Some c \<Rightarrow> c)"

definition add :: "MemoryStream \<Rightarrow> MemoryRecord \<Rightarrow> MemoryStream" where
  "add s record =
     s\<lparr>records := records s @ [record],
       df := foldl (\<lambda>m t. m(t \<mapsto> df_count m t + 1)) (df s) (uniq (tokens record))\<rparr>"

text \<open>\<^verbatim>\<open>_idf(token)\<close>: \<^verbatim>\<open>N = this.records.length || 1\<close>.\<close>

definition idf :: "MemoryStream \<Rightarrow> string \<Rightarrow> real" where
  "idf s token =
     (let N = (if length (records s) = 0 then 1 else length (records s));
          d = df_count (df s) token
      in ln ((real N + 1) / (real d + 1)) + 1)"

definition tfidf :: "MemoryStream \<Rightarrow> (string \<times> nat) list \<Rightarrow> (string \<times> real) list" where
  "tfidf s tfMap = foldl (\<lambda>out (t, n). map_set out t (real n * idf s t)) [] tfMap"

text \<open>One entry of \<^verbatim>\<open>scored\<close>: \<^verbatim>\<open>{ rec, score, relevance, recency, importance }\<close>.\<close>

record scored =
  sc_rec :: MemoryRecord
  sc_score :: real
  sc_relevance :: real
  sc_recency :: real
  sc_importance :: real

text \<open>
  The body of the loop of \<^verbatim>\<open>retrieve\<close> for a record that passes the filter. The two lines
  \<^verbatim>\<open>hours = Math.max(0, (now.getTime() - rec.time.getTime()) / 3600000)\<close> and
  \<^verbatim>\<open>recency = Math.pow(0.99, hours)\<close> are computed in doubles: the difference of the two
  times is rounded, the quotient is rounded, and so is the power.
\<close>

definition score_record :: "MemoryStream \<Rightarrow> (string \<times> real) list \<Rightarrow> int \<Rightarrow> MemoryRecord \<Rightarrow> scored" where
  "score_record s qVec now r =
     (let mVec = tfidf s (tf r);
          relevance = cosineSparse qVec mVec;
          hours = max 0 (double_round (double_round (real_of_int (now - rtime r)) / 3600000));
          recency = Math_pow (double_round (99 / 100)) hours;
          imp = real_of_int (max 1 (min 10 (importance r))) / 10;
          score = relevance + recency + imp
      in \<lparr>sc_rec = r, sc_score = score, sc_relevance = relevance, sc_recency = recency,
          sc_importance = imp\<rparr>)"

text \<open>
  The hours and the recency of \<open>score_record\<close> as functions of the milliseconds between the
  time of the record and \<open>now\<close> (lemma \<open>sc_recency_eq\<close>).
\<close>

definition elapsed_hours :: "int \<Rightarrow> real" where
  "elapsed_hours ms = max 0 (double_round (double_round (real_of_int ms) / 3600000))"

definition recency_at :: "int \<Rightarrow> real" where
  "recency_at ms = Math_pow (double_round (99 / 100)) (elapsed_hours ms)"

text \<open>\<^verbatim>\<open>if (types && !types.includes(rec.type)) continue\<close>: \<^verbatim>\<open>null\<close> is \<open>None\<close>.\<close>

definition passes :: "string list option \<Rightarrow> MemoryRecord \<Rightarrow> bool" where
  "passes types r = (case types of None \<Rightarrow> True | Some ts \<Rightarrow> rtype r \<in> set ts)"

text \<open>
  \<^verbatim>\<open>scored.sort((a, b) => b.score - a.score)\<close>: the sort of an array is stable, so it is the
  stable sort by decreasing score.
\<close>

definition sort_scored :: "scored list \<Rightarrow> scored list" where
  "sort_scored xs = sort_key (\<lambda>e. - sc_score e) xs"

definition retrieve :: "MemoryStream \<Rightarrow> string \<Rightarrow> int \<Rightarrow> nat \<Rightarrow> string list option \<Rightarrow> scored list" where
  "retrieve s query now k types =
     (let qVec = tfidf s (count_tokens (tokenize query));
          scored = foldl (\<lambda>acc r. if \<not> passes types r then acc
                                   else acc @ [score_record s qVec now r])
                         [] (records s)
      in js_slice 0 (int k) (sort_scored scored))"

text \<open>\<^verbatim>\<open>recent(n) = this.records.slice(-n)\<close>\<close>

definition recent :: "MemoryStream \<Rightarrow> nat \<Rightarrow> MemoryRecord list" where
  "recent s n = js_slice_from (- int n) (records s)"

text \<open>
  The calls a client makes on one stream, each with what it returns and the stream after
  it: \<^verbatim>\<open>retrieve\<close> and \<^verbatim>\<open>recent\<close> assign no field of \<^verbatim>\<open>this\<close> (\<^verbatim>\<open>scored\<close> is a fresh array,
  \<^verbatim>\<open>_tfidf\<close> builds a fresh Map, \<^verbatim>\<open>slice\<close> copies).
\<close>

datatype stream_op =
    Add MemoryRecord
  | Retrieve string int nat "string list option"
  | Recent nat

datatype op_result =
    Nothing
  | Scored "scored list"
  | Records "MemoryRecord list"

fun exec_op :: "MemoryStream \<Rightarrow> stream_op \<Rightarrow> op_result \<times> MemoryStream" where
  "exec_op s (Add r) = (Nothing, add s r)"
| "exec_op s (Retrieve q now k types) = (Scored (retrieve s q now k types), s)"
| "exec_op s (Recent n) = (Records (recent s n), s)"

definition exec_ops :: "MemoryStream \<Rightarrow> stream_op list \<Rightarrow> MemoryStream" where
  "exec_ops s ops = foldl (\<lambda>s op. snd (exec_op s op)) s ops"

text \<open>The stream of the two records \<open>X likes coffee\<close> and \<open>X dislikes tea\<close>, both at time 0.\<close>

definition ex_coffee :: MemoryRecord where
  "ex_coffee = new_MemoryRecord (''mem'', 1) 0 ''X likes coffee'' 5 ''observation''"

definition ex_tea :: MemoryRecord where
  "ex_tea = new_MemoryRecord (''mem'', 2) 0 ''X dislikes tea'' 3 ''observation''"

definition ex_stream :: MemoryStream where
  "ex_stream = add (add new_MemoryStream ex_coffee) ex_tea"


section \<open>world.js: the class World\<close>

record place =
  pid :: string
  pname :: string
  px :: real
  py :: real
  pr :: real
  pdesc :: string

text \<open>
  \<^verbatim>\<open>this.places\<close>: the constructor writes the six places down and no code assigns the field
  again, so the list is a constant.
\<close>

definition places :: "place list" where
  "places =
     [\<lparr>pid = ''hobbs'', pname = ''Hobbs Cafe'', px = 10, py = 10, pr = 3,
       pdesc = ''A cozy coffee shop with pastries and regulars.''\<rparr>,
      \<lparr>pid = ''park'', pname = ''Johnson Park'', px = 22, py = 9, pr = 35 / 10,
       pdesc = ''A green park with benches, flowers, and walking paths.''\<rparr>,
      \<lparr>pid = ''college'', pname = ''Oak Hill College'', px = 20, py = 21, pr = 32 / 10,
       pdesc = ''A small college campus where students attend classes.''\<rparr>,
      \<lparr>pid = ''library'', pname = ''Oak Hill College Library'', px = 8, py = 22, pr = 32 / 10,
       pdesc = ''A quiet library used for studying and research.''\<rparr>,
      \<lparr>pid = ''market'', pname = ''Willow Market and Pharmacy'', px = 26, py = 26, pr = 32 / 10,
       pdesc = ''A neighborhood market with a pharmacy counter.''\<rparr>,
      \<lparr>pid = ''plaza'', pname = ''Town Plaza'', px = 14, py = 28, pr = 38 / 10,
       pdesc = ''The center of town where people pass by and chat.''\<rparr>]"

record chat_msg =
  c_speaker :: string
  c_text :: string
  c_time :: int

record log_entry =
  l_time :: int
  l_text :: string
  l_place :: string

record World =
  width :: real
  height :: real
  chatByPlace :: "string \<rightharpoonup> chat_msg list"
  log :: "log_entry list"

definition new_World :: "real \<Rightarrow> real \<Rightarrow> World" where
  "new_World w h =
     \<lparr>width = w, height = h,
      chatByPlace = foldl (\<lambda>m p. m(pid p \<mapsto> [])) Map.empty places,
      log = []\<rparr>"

text \<open>\<^verbatim>\<open>nearestPlace(x, y)\<close>: the loop carries \<open>(best, bestD)\<close>, from \<^verbatim>\<open>(null, 1e9)\<close>.\<close>

definition nearestPlace :: "real \<Rightarrow> real \<Rightarrow> place option \<times> real" where
  "nearestPlace x y =
     foldl (\<lambda>(best, bestD) p.
              (let d = dist2d x y (px p) (py p)
               in if d < bestD then (Some p, d) else (best, bestD)))
           (None, 1000000000) places"

definition placeAt :: "real \<Rightarrow> real \<Rightarrow> place option" where
  "placeAt x y =
     (case nearestPlace x y of
        (None, d) \<Rightarrow> None
      | (Some p, d) \<Rightarrow> if d \<le> pr p then Some p else None)"

text \<open>A JavaScript string is truthy when it is not empty.\<close>

definition truthy :: "string \<Rightarrow> bool" where
  "truthy s = (s \<noteq> [])"

record dest =
  d_x :: real
  d_y :: real
  d_placeId :: string
  d_placeName :: string

text \<open>
  The fields of an \<^verbatim>\<open>Agent\<close>. Three fields hold text that only the prompts and the user
  interface read and are left out: \<^verbatim>\<open>dailyPlan\<close>, \<^verbatim>\<open>lastRetrievedMemoriesText\<close> and
  \<^verbatim>\<open>lastPromptText\<close>.
\<close>

record Agent =
  a_id :: string
  a_name :: string
  a_age :: nat
  a_title :: string
  a_traits :: "string list"
  a_bio :: string
  a_goals :: "string list"
  a_home :: string
  a_persona :: string
  a_seedMemory :: string
  a_x :: real
  a_y :: real
  a_dest :: "dest option"
  a_speed :: real
  a_energy :: int
  a_tickMinutes :: int
  a_memory :: MemoryStream
  a_summary :: string
  importanceSinceReflection :: int
  currentAction :: string
  lastThought :: string

text \<open>
  The constructor of \<^verbatim>\<open>Agent\<close>: the position is the pair \<^verbatim>\<open>startX\<close>, \<^verbatim>\<open>startY\<close> as given,
  there is no destination and the speed is the double of \<^verbatim>\<open>1.3\<close>.
\<close>

definition new_Agent :: "string \<Rightarrow> string \<Rightarrow> nat \<Rightarrow> string \<Rightarrow> string list \<Rightarrow> string \<Rightarrow> string list
                         \<Rightarrow> string \<Rightarrow> real \<Rightarrow> real \<Rightarrow> string \<Rightarrow> string \<Rightarrow> Agent" where
  "new_Agent i name age title traits bio goals home startX startY persona seedMemory =
     \<lparr>a_id = i, a_name = name, a_age = age, a_title = title, a_traits = traits, a_bio = bio,
      a_goals = goals, a_home = home, a_persona = persona, a_seedMemory = seedMemory,
      a_x = startX, a_y = startY, a_dest = None, a_speed = double_round (13 / 10),
      a_energy = 100,
      a_tickMinutes = 10, a_memory = new_MemoryStream, a_summary = [],
      importanceSinceReflection = 0, currentAction = ''idle'', lastThought = []\<rparr>"

record other =
  o_id :: string
  o_name :: string
  o_action :: string

record perception =
  p_place :: "place option"
  p_placeId :: "string option"
  p_placeName :: string
  p_others :: "other list"
  p_chat :: "chat_msg list"

text \<open>
  \<^verbatim>\<open>perceive(agent, allAgents)\<close>. \<^verbatim>\<open>place && this.placeAt(a.x, a.y)?.id === place.id\<close> is
  false when \<^verbatim>\<open>place\<close> is \<^verbatim>\<open>null\<close> and when the other agent is at no place.
\<close>

definition perceive :: "World \<Rightarrow> Agent \<Rightarrow> Agent list \<Rightarrow> perception" where
  "perceive w agent allAgents =
     (let place = placeAt (a_x agent) (a_y agent);
          placeName = (case place of None \<Rightarrow> ''Street'' | Some p \<Rightarrow> pname p);
          placeId = (case place of None \<Rightarrow> None | Some p \<Rightarrow> Some (pid p));
          others =
            foldl (\<lambda>others a.
                     if a_id a = a_id agent then others
                     else (let samePlace =
                                 (case place of
                                    None \<Rightarrow> False
                                  | Some p \<Rightarrow>
                                      (case placeAt (a_x a) (a_y a) of
                                         None \<Rightarrow> False
                                       | Some q \<Rightarrow> pid q = pid p))
                           in if samePlace
                              then others @
                                   [\<lparr>o_id = a_id a, o_name = a_name a,
                                     o_action = (if truthy (currentAction a) then currentAction a
                                                 else ''idle'')\<rparr>]
                              else others))
                  [] allAgents;
          chat = (case placeId of
                    None \<Rightarrow> []
                  | Some i \<Rightarrow>
                      if truthy i
                      then js_slice_from (- 6) (case chatByPlace w i of None \<Rightarrow> [] | Some arr \<Rightarrow> arr)
                      else [])
      in \<lparr>p_place = place, p_placeId = placeId, p_placeName = placeName, p_others = others,
          p_chat = chat\<rparr>)"

text \<open>\<^verbatim>\<open>this.places.find(p => p.id === placeId)?.name ?? ""\<close>\<close>

definition place_name_of :: "string \<Rightarrow> string" where
  "place_name_of i = (case find (\<lambda>p. pid p = i) places of None \<Rightarrow> [] | Some p \<Rightarrow> pname p)"

definition postChat :: "World \<Rightarrow> string option \<Rightarrow> string \<Rightarrow> string \<Rightarrow> int \<Rightarrow> World" where
  "postChat w placeId speaker txt t =
     (case placeId of
        None \<Rightarrow> w
      | Some i \<Rightarrow>
          if \<not> truthy i then w
          else (case chatByPlace w i of
                  None \<Rightarrow> w
                | Some arr \<Rightarrow>
                    w\<lparr>chatByPlace := (chatByPlace w)(i \<mapsto> arr @ [\<lparr>c_speaker = speaker, c_text = txt, c_time = t\<rparr>]),
                      log := log w @ [\<lparr>l_time = t, l_text = speaker @ '': '' @ txt,
                                       l_place = place_name_of i\<rparr>]\<rparr>))"

definition logEvent :: "World \<Rightarrow> int \<Rightarrow> string \<Rightarrow> string option \<Rightarrow> World" where
  "logEvent w t txt placeId =
     (let place = (case placeId of
                     None \<Rightarrow> []
                   | Some i \<Rightarrow> if truthy i then place_name_of i else [])
      in w\<lparr>log := log w @ [\<lparr>l_time = t, l_text = txt, l_place = place\<rparr>]\<rparr>)"



section \<open>world.js: the class Agent\<close>

subsection \<open>The state of a run and what the gateway answers\<close>

text \<open>
  A request that reaches the decision gateway: the action decision of a tick, the rating
  of one memory text (paper mode) and a reflection over the recent memories.
\<close>

datatype gw_call =
    DecisionCall
  | RatingCall string
  | ReflectionCall "(string \<times> int \<times> string) list"

text \<open>
  What a method of one agent reads and writes: the agent itself, the world, the counter
  \<^verbatim>\<open>_idCounter\<close> of the module, and the requests sent to the gateway so far.
\<close>

record sim =
  s_agent :: Agent
  s_world :: World
  s_idCounter :: nat
  s_calls :: "gw_call list"

text \<open>\<^verbatim>\<open>nextId(prefix)\<close>: the counter goes up first.\<close>

definition nextId :: "string \<Rightarrow> nat \<Rightarrow> rec_id \<times> nat" where
  "nextId prefix c = ((prefix, c + 1), c + 1)"

text \<open>
  A value parsed from the gateway's JSON, as far as \<^verbatim>\<open>m.importance\<close> needs it. A number
  is an integer; other numbers, arrays and objects are left out.
\<close>

datatype jsval = JUndefined | JNull | JBool bool | JNum int | JStr string

record mem_item =
  m_text :: string
  m_type :: string
  m_importance :: jsval

text \<open>
  The object \<^verbatim>\<open>chatJSON\<close> returns for an action decision. The fields the schema makes
  strings are strings, the empty string when the field is missing; \<open>d_memories\<close> is
  \<open>None\<close> when \<^verbatim>\<open>obj.memories\<close> is not an array. The gateway answering \<^verbatim>\<open>null\<close> is
  \<open>None :: decision option\<close>.
\<close>

record decision =
  d_thought :: string
  d_action :: string
  d_target :: string
  d_utterance :: string
  d_memories :: "mem_item list option"

text \<open>
  The object returned for a reflection: \<open>r_insights\<close> is \<open>None\<close> when \<^verbatim>\<open>obj.insights\<close> is
  missing, \<open>r_summary_update\<close> is empty when the field is missing.
\<close>

record reflection =
  r_insights :: "string list option"
  r_summary_update :: string

subsection \<open>Helpers of the runtime\<close>

definition digit_char :: "nat \<Rightarrow> char" where
  "digit_char d = char_of (48 + d)"

text \<open>\<^verbatim>\<open>String(n)\<close> for a natural number.\<close>

fun show_nat :: "nat \<Rightarrow> string" where
  "show_nat n = (if n < 10 then [digit_char n] else show_nat (n div 10) @ [digit_char (n mod 10)])"

declare show_nat.simps [simp del]

text \<open>\<^verbatim>\<open>arr.join(sep)\<close>\<close>

fun join :: "string \<Rightarrow> string list \<Rightarrow> string" where
  "join sep [] = []"
| "join sep [x] = x"
| "join sep (x # y # ys) = x @ sep @ join sep (y # ys)"

text \<open>The value of a string of decimal digits.\<close>

definition digits_value :: "string \<Rightarrow> nat" where
  "digits_value ds = foldl (\<lambda>n c. 10 * n + (code c - 48)) 0 ds"

text \<open>\<^verbatim>\<open>out.match(/(\d+)/)\<close>: the first maximal run of digits, \<open>None\<close> when there is no digit.\<close>

definition first_digits :: "string \<Rightarrow> string option" where
  "first_digits out =
     (let ds = takeWhile is_number (dropWhile (\<lambda>c. \<not> is_number c) out)
      in if ds = [] then None else Some ds)"

text \<open>
  \<^verbatim>\<open>parseInt(s, 10)\<close> on a string: leading white space, an optional sign, then the longest
  run of digits; \<open>None\<close> is \<^verbatim>\<open>NaN\<close>.
\<close>

definition parseInt_string :: "string \<Rightarrow> int option" where
  "parseInt_string s =
     (let t = dropWhile is_space s;
          neg = (t \<noteq> [] \<and> hd t = CHR ''-'');
          u = (if t \<noteq> [] \<and> (hd t = CHR ''-'' \<or> hd t = CHR ''+'') then tl t else t);
          ds = takeWhile is_number u
      in if ds = [] then None
         else Some (if neg then - int (digits_value ds) else int (digits_value ds)))"

text \<open>The first decimal digit of a natural number.\<close>

fun leading_digit :: "nat \<Rightarrow> nat" where
  "leading_digit n = (if n < 10 then n else leading_digit (n div 10))"

declare leading_digit.simps [simp del]

text \<open>
  \<^verbatim>\<open>parseInt(v, 10)\<close> on a value: the value is turned into a string first. An integer below
  \<open>10^21\<close> in absolute value is written with all its digits and gives itself. From \<open>10^21\<close>
  on \<^verbatim>\<open>String\<close> writes the exponent form, \<^verbatim>\<open>2.5e+21\<close>, of which \<^verbatim>\<open>parseInt\<close> reads the sign and
  the digit before the point (the first digit of the integer, unless the shortest decimal
  form of the double rounds up to the next power of ten). \<^verbatim>\<open>true\<close>, \<^verbatim>\<open>false\<close>, \<^verbatim>\<open>null\<close> and
  \<^verbatim>\<open>undefined\<close> give \<^verbatim>\<open>NaN\<close>.
\<close>

definition parseInt :: "jsval \<Rightarrow> int option" where
  "parseInt v =
     (case v of
        JNum n \<Rightarrow> Some (if \<bar>n\<bar> < 10 ^ 21 then n else sgn n * int (leading_digit (nat \<bar>n\<bar>)))
      | JStr s \<Rightarrow> parseInt_string s
      | _ \<Rightarrow> None)"

text \<open>\<^verbatim>\<open>v ?? d\<close>\<close>

definition nullish_or :: "jsval \<Rightarrow> jsval \<Rightarrow> jsval" where
  "nullish_or v d = (case v of JUndefined \<Rightarrow> d | JNull \<Rightarrow> d | _ \<Rightarrow> v)"

text \<open>\<^verbatim>\<open>n || d\<close> on a number: \<^verbatim>\<open>NaN\<close> and \<^verbatim>\<open>0\<close> are falsy.\<close>

definition number_or :: "int option \<Rightarrow> int \<Rightarrow> int" where
  "number_or n d = (case n of None \<Rightarrow> d | Some i \<Rightarrow> if i = 0 then d else i)"

text \<open>\<^verbatim>\<open>clamp(parseInt(m.importance ?? 3, 10) || 3, 1, 10)\<close>, the importance of fast mode.\<close>

definition proposed_importance :: "jsval \<Rightarrow> int" where
  "proposed_importance v = clamp (number_or (parseInt (nullish_or v (JNum 3))) 3) 1 10"

text \<open>
  \<^verbatim>\<open>_rateImportancePaperStyle\<close>, from the text \<open>out\<close> the gateway answers to the rating
  request.
\<close>

definition rateImportancePaperStyle :: "string \<Rightarrow> int" where
  "rateImportancePaperStyle out =
     (case first_digits out of
        None \<Rightarrow> 3
      | Some ds \<Rightarrow> clamp (int (digits_value ds)) 1 10)"

subsection \<open>Seed memories\<close>

definition apostrophe :: string where
  "apostrophe = [CHR 0x27]"

definition seed_texts :: "Agent \<Rightarrow> string list" where
  "seed_texts a =
     (if truthy (a_seedMemory a) \<and> truthy (trim (a_seedMemory a))
      then filter truthy (map trim (split_on CHR '';'' (a_seedMemory a)))
      else [a_name a @ '' is '' @ show_nat (a_age a) @ '' years old.'',
            a_name a @ '' works as '' @ a_title a @ ''.'',
            a_name a @ '' lives near '' @ a_home a @ ''.'',
            a_name a @ apostrophe @ ''s traits: '' @ join '', '' (a_traits a) @ ''.'',
            a_name a @ apostrophe @ ''s long-term goals: '' @ join ''; '' (a_goals a) @ ''.'',
            a_bio a])"

text \<open>\<^verbatim>\<open>seedInitialMemories(now)\<close>: the loop carries the stream, the id counter and \<^verbatim>\<open>imp\<close>.\<close>

definition seedInitialMemories :: "sim \<Rightarrow> int \<Rightarrow> sim" where
  "seedInitialMemories st now =
     (let a = s_agent st;
          (mem, c, imp) =
            foldl (\<lambda>(mem, c, imp) t.
                     (let (i, c') = nextId ''seed'' c
                      in (add mem (new_MemoryRecord i now t imp ''observation''), c',
                          max 5 (imp - 1))))
                  (a_memory a, s_idCounter st, 8) (seed_texts a)
      in st\<lparr>s_agent := a\<lparr>a_memory := mem\<rparr>, s_idCounter := c\<rparr>)"

subsection \<open>Movement\<close>

text \<open>
  \<^verbatim>\<open>_moveTowardsDest()\<close>, in doubles: the distance, the two quotients, the two products
  and the two sums are rounded, and \<^verbatim>\<open>0.01\<close> and \<^verbatim>\<open>31.9\<close> are the doubles of these literals.
\<close>

definition moveTowardsDest :: "Agent \<Rightarrow> Agent" where
  "moveTowardsDest a =
     (case a_dest a of
        None \<Rightarrow> a
      | Some dst \<Rightarrow>
          (let d = dist_double (a_x a) (a_y a) (d_x dst) (d_y dst)
           in if d < double_round (1 / 100)
              then a\<lparr>a_x := d_x dst, a_y := d_y dst, a_dest := None\<rparr>
              else (let step = min (a_speed a) d;
                        dx = double_round (double_round (d_x dst - a_x a) / d);
                        dy = double_round (double_round (d_y dst - a_y a) / d)
                    in a\<lparr>a_x := clamp (double_round (a_x a + double_round (dx * step)))
                                       0 (double_round (319 / 10)),
                         a_y := clamp (double_round (a_y a + double_round (dy * step)))
                                       0 (double_round (319 / 10))\<rparr>)))"

subsection \<open>Reflection\<close>

text \<open>
  \<^verbatim>\<open>maybeReflect(llm, world, now)\<close>; \<open>resp\<close> is what \<^verbatim>\<open>chatJSON\<close> returns if the request is
  made. \<^verbatim>\<open>obj?.insights?.length\<close> is truthy for an array that is not empty.
\<close>

definition maybeReflect :: "sim \<Rightarrow> int \<Rightarrow> reflection option \<Rightarrow> sim" where
  "maybeReflect st now resp =
     (if importanceSinceReflection (s_agent st) < 26 then st
      else
        (let a = s_agent st;
             recent12 = map (\<lambda>r. (rtext r, importance r, rtype r)) (recent (a_memory a) 12);
             st1 = st\<lparr>s_calls := s_calls st @ [ReflectionCall recent12]\<rparr>;
             st2 =
               (case resp of
                  None \<Rightarrow> st1
                | Some obj \<Rightarrow>
                    (case r_insights obj of
                       None \<Rightarrow> st1
                     | Some insights \<Rightarrow>
                         if insights = [] then st1
                         else
                           (let (mem, c) =
                                  foldl (\<lambda>(mem, c) ins.
                                           (let (i, c') = nextId ''ref'' c
                                            in (add mem (new_MemoryRecord i now (''Insight: '' @ ins) 8
                                                           ''reflection''), c')))
                                        (a_memory a, s_idCounter st1) insights;
                                a1 = a\<lparr>a_memory := mem\<rparr>;
                                a2 = (if truthy (r_summary_update obj)
                                      then a1\<lparr>a_summary := r_summary_update obj\<rparr> else a1);
                                w = logEvent (s_world st1) now
                                      (a_name a @ '' reflects and gains insights.'')
                                      (map_option pid (placeAt (a_x a) (a_y a)))
                            in st1\<lparr>s_agent := a2, s_world := w, s_idCounter := c\<rparr>)))
         in st2\<lparr>s_agent := (s_agent st2)\<lparr>importanceSinceReflection := 0\<rparr>\<rparr>))"


subsection \<open>The cognitive cycle\<close>

definition unsure_thought :: string where
  "unsure_thought =
     ''I'' @ apostrophe @ ''m not sure what to do next'' @ [CHR 0xE2, CHR 0x80, CHR 0xA6]
       @ '' I'' @ apostrophe @ ''ll observe for now.''"

text \<open>
  The loop \<^verbatim>\<open>for (const m of obj.memories)\<close> of \<^verbatim>\<open>step\<close>. The answer to the rating request of
  the \<open>i\<close>-th item (paper mode) is \<open>ratings i\<close>.
\<close>

definition store_memories :: "sim \<Rightarrow> int \<Rightarrow> string \<Rightarrow> (nat \<Rightarrow> string) \<Rightarrow> mem_item list \<Rightarrow> sim" where
  "store_memories st now mode ratings ms =
     foldl (\<lambda>st (i, m).
              (let txt = js_slice 0 280 (m_text m);
                   ty = (if m_type m = ''action'' then ''action'' else ''observation'');
                   imp0 = proposed_importance (m_importance m);
                   (imp, calls) =
                     (if mode = ''paper''
                      then (rateImportancePaperStyle (ratings i), s_calls st @ [RatingCall txt])
                      else (imp0, s_calls st));
                   (rid, c) = nextId ''mem'' (s_idCounter st);
                   a = s_agent st
               in st\<lparr>s_agent := a\<lparr>a_memory := add (a_memory a) (new_MemoryRecord rid now txt imp ty),
                                    importanceSinceReflection := importanceSinceReflection a + imp\<rparr>,
                      s_idCounter := c, s_calls := calls\<rparr>))
           st (enumerate 0 ms)"

text \<open>The branches on \<^verbatim>\<open>obj.action\<close> of \<^verbatim>\<open>step\<close>.\<close>

definition execute_action :: "sim \<Rightarrow> int \<Rightarrow> perception \<Rightarrow> decision \<Rightarrow> sim" where
  "execute_action st now perc obj =
     (let a = s_agent st;
          target = trim (d_target obj);
          utterance = trim (d_utterance obj)
      in if d_action obj = ''interact''
         then (let ok = (\<exists>ot \<in> set (p_others perc). o_name ot = target)
               in if ok \<and> truthy utterance
                  then st\<lparr>s_world := postChat (s_world st) (p_placeId perc) (a_name a) utterance now,
                          s_agent := a\<lparr>currentAction := ''talking to '' @ target\<rparr>\<rparr>
                  else st\<lparr>s_agent := a\<lparr>currentAction := ''idle''\<rparr>\<rparr>)
         else if d_action obj = ''move''
         then (let place = (case find (\<lambda>p. pname p = target) places of
                              None \<Rightarrow> places ! 0
                            | Some p \<Rightarrow> p)
               in st\<lparr>s_agent := a\<lparr>a_dest := Some \<lparr>d_x = px place, d_y = py place,
                                                    d_placeId = pid place, d_placeName = pname place\<rparr>,
                                    currentAction := ''going to '' @ pname place\<rparr>,
                       s_world := logEvent (s_world st) now
                                    (a_name a @ '' heads to '' @ pname place @ ''.'') (Some (pid place))\<rparr>)
         else st\<lparr>s_agent := a\<lparr>currentAction := ''staying''\<rparr>\<rparr>)"

text \<open>
  \<^verbatim>\<open>step(llm, world, allAgents, now, { mode })\<close>. \<open>resp\<close> is what \<^verbatim>\<open>chatJSON\<close> returns for
  the action decision, \<open>ratings\<close> what the rating requests return, \<open>rresp\<close> what the
  reflection request returns. The retrieval of the tick feeds the prompt and
  \<^verbatim>\<open>lastRetrievedMemoriesText\<close> only, and \<^verbatim>\<open>retrieve\<close> changes no stream, so it leaves no trace
  in the state.
\<close>

definition step :: "sim \<Rightarrow> Agent list \<Rightarrow> int \<Rightarrow> string \<Rightarrow> decision option \<Rightarrow> (nat \<Rightarrow> string)
                     \<Rightarrow> reflection option \<Rightarrow> sim" where
  "step st allAgents now mode resp ratings rresp =
     (let a0 = s_agent st;
          a1 = (if a_dest a0 \<noteq> None then (moveTowardsDest a0)\<lparr>currentAction := ''walking''\<rparr> else a0);
          perc = perceive (s_world st) a1 allAgents;
          st1 = st\<lparr>s_agent := a1, s_calls := s_calls st @ [DecisionCall]\<rparr>
      in case resp of
           None \<Rightarrow> st1\<lparr>s_agent := a1\<lparr>lastThought := unsure_thought, currentAction := ''idle''\<rparr>\<rparr>
         | Some obj \<Rightarrow>
             (let st2 = st1\<lparr>s_agent := a1\<lparr>lastThought := d_thought obj\<rparr>\<rparr>;
                  st3 = (case d_memories obj of
                           None \<Rightarrow> st2
                         | Some ms \<Rightarrow> store_memories st2 now mode ratings ms);
                  st4 = execute_action st3 now perc obj;
                  a4 = s_agent st4;
                  st5 = st4\<lparr>s_agent := a4\<lparr>a_energy := clamp (a_energy a4 - 1) 0 100\<rparr>\<rparr>
              in maybeReflect st5 now rresp))"

text \<open>
  An agent as the constructor leaves it (speed 1.3, energy 100, no destination), standing
  at Hobbs Cafe, and the state of a run that begins with it.
\<close>

definition ex_agent :: Agent where
  "ex_agent =
     \<lparr>a_id = ''isabella'', a_name = ''Isabella Rodriguez'', a_age = 34,
      a_title = ''Cafe owner (Hobbs Cafe)'', a_traits = [''friendly'', ''outgoing'', ''hospitable''],
      a_bio = ''Isabella runs Hobbs Cafe.'', a_goals = [''Keep Hobbs Cafe welcoming and thriving''],
      a_home = ''Hobbs Cafe'', a_persona = [], a_seedMemory = [],
      a_x = 10, a_y = 10, a_dest = None, a_speed = double_round (13 / 10), a_energy = 100,
      a_tickMinutes = 10,
      a_memory = new_MemoryStream, a_summary = [], importanceSinceReflection = 0,
      currentAction = ''idle'', lastThought = []\<rparr>"

definition ex_sim :: sim where
  "ex_sim = \<lparr>s_agent = ex_agent, s_world = new_World 32 32, s_idCounter = 0, s_calls = []\<rparr>"


definition no_ratings :: "nat \<Rightarrow> string" where
  "no_ratings i = []"

definition ex_street_a :: Agent where
  "ex_street_a = ex_agent\<lparr>a_id := ''a'', a_name := ''A'', a_x := 0, a_y := 0\<rparr>"

definition ex_street_b :: Agent where
  "ex_street_b = ex_agent\<lparr>a_id := ''b'', a_name := ''B'', a_x := 1, a_y := 0\<rparr>"

definition ex_cafe_b :: Agent where
  "ex_cafe_b = ex_agent\<lparr>a_id := ''b'', a_name := ''B'', a_x := 11, a_y := 10\<rparr>"

definition ex_world_chat :: World where
  "ex_world_chat = postChat (new_World 32 32) (Some ''hobbs'') ''B'' ''Good morning'' 0"

definition ex_dest_park :: dest where
  "ex_dest_park = \<lparr>d_x = 22, d_y = 9, d_placeId = ''park'', d_placeName = ''Johnson Park''\<rparr>"

definition ex_walker :: Agent where
  "ex_walker = ex_agent\<lparr>a_dest := Some ex_dest_park\<rparr>"

definition ex_arriving :: Agent where
  "ex_arriving = ex_agent\<lparr>a_x := 22, a_y := 9, a_dest := Some ex_dest_park\<rparr>"

text \<open>
  \<^verbatim>\<open>placeXY(name)\<close> of \<^verbatim>\<open>makeAgents\<close> in \<^verbatim>\<open>scenario.js\<close>, which gives every agent of the
  scenario its \<^verbatim>\<open>startX\<close> and \<^verbatim>\<open>startY\<close>: the coordinates of the place of that name, (16, 16)
  when there is none.
\<close>

definition placeXY :: "string \<Rightarrow> real \<times> real" where
  "placeXY name =
     (case find (\<lambda>p. pname p = name) places of
        None \<Rightarrow> (16, 16)
      | Some p \<Rightarrow> (px p, py p))"

text \<open>
  The box \<open>[0, 31.9] \<times> [0, 31.9]\<close> of the clamp of \<^verbatim>\<open>_moveTowardsDest\<close>, 31.9 being the double
  of the literal. An agent is \<open>walkable\<close> when it stands in the box, its speed is at least
  0.001 and its destination, if it has one, lies in the box.
\<close>

definition in_box :: "real \<Rightarrow> real \<Rightarrow> bool" where
  "in_box x y = (0 \<le> x \<and> x \<le> double_round (319 / 10) \<and> 0 \<le> y \<and> y \<le> double_round (319 / 10))"

definition walkable :: "Agent \<Rightarrow> bool" where
  "walkable a =
     (in_box (a_x a) (a_y a) \<and> 1 / 1000 \<le> a_speed a
      \<and> (case a_dest a of None \<Rightarrow> True | Some dst \<Rightarrow> in_box (d_x dst) (d_y dst)))"

text \<open>The four fields that \<^verbatim>\<open>_moveTowardsDest\<close> reads.\<close>

definition same_motion :: "Agent \<Rightarrow> Agent \<Rightarrow> bool" where
  "same_motion a b = (a_x a = a_x b \<and> a_y a = a_y b \<and> a_dest a = a_dest b \<and> a_speed a = a_speed b)"

text \<open>
  An agent that the constructor places at (35, 10), outside the box, and that heads for
  Hobbs Cafe at (10, 10).
\<close>

definition ex_dest_hobbs :: dest where
  "ex_dest_hobbs = \<lparr>d_x = 10, d_y = 10, d_placeId = ''hobbs'', d_placeName = ''Hobbs Cafe''\<rparr>"

definition ex_outside :: Agent where
  "ex_outside =
     (new_Agent ''sam'' ''Sam Moore'' 65 ''Retired navy officer'' [''wise''] ''Sam tends the park.''
        [''Run for mayor''] ''Town Plaza'' 35 10 [] [])\<lparr>a_dest := Some ex_dest_hobbs\<rparr>"

definition ex_decision_zero :: decision where
  "ex_decision_zero =
     \<lparr>d_thought = ''Quiet morning.'', d_action = ''stay'', d_target = [], d_utterance = [],
      d_memories = Some [\<lparr>m_text = ''The cafe is quiet'', m_type = ''observation'',
                          m_importance = JNum 0\<rparr>]\<rparr>"

definition rec_ok :: "MemoryRecord \<Rightarrow> bool" where
  "rec_ok r = (1 \<le> importance r \<and> importance r \<le> 10
               \<and> (rtype r = ''observation'' \<or> rtype r = ''action'' \<or> rtype r = ''reflection''))"

definition stream_ok :: "MemoryStream \<Rightarrow> bool" where
  "stream_ok s = list_all rec_ok (records s)"

section \<open>Facts about the helpers\<close>

lemma set_uniq_aux: "set (foldl (\<lambda>seen x. if x \<in> set seen then seen else seen @ [x]) a xs) = set a \<union> set xs"
  by (induction xs arbitrary: a) auto

lemma distinct_uniq_aux: "distinct a \<Longrightarrow> distinct (foldl (\<lambda>seen x. if x \<in> set seen then seen else seen @ [x]) a xs)"
  by (induction xs arbitrary: a) auto

lemma set_uniq: "set (uniq xs) = set xs"
  by (simp add: uniq_def set_uniq_aux)

lemma distinct_uniq: "distinct (uniq xs)"
  by (simp add: uniq_def distinct_uniq_aux)

lemma js_slice_take: "js_slice 0 (int k) xs = take k xs"
  by (simp add: js_slice_def js_index_def min_def)

lemma js_slice_from_last: "0 < n \<Longrightarrow> js_slice_from (- int n) xs = drop (length xs - n) xs"
  by (auto simp: js_slice_from_def js_index_def max_def nat_diff_distrib' )

lemma keys_map_set: "fst ` set (map_set m k v) = insert k (fst ` set m)"
  by (induction m k v rule: map_set.induct) auto

lemma push_loop: "foldl (\<lambda>acc r. if \<not> P r then acc else acc @ [f r]) a xs = a @ map f (filter P xs)"
  by (induction xs arbitrary: a) auto

lemma foldl_inv: "P s \<Longrightarrow> (\<And>s x. P s \<Longrightarrow> P (f s x)) \<Longrightarrow> P (foldl f s xs)"
  by (induction xs arbitrary: s) auto

lemma sqrt_less_num: "0 < y \<Longrightarrow> (sqrt x < y) = (x < y * y)"
proof -
  assume y: "0 < y"
  have "sqrt (y * y) = y" using y by simp
  then have "(sqrt x < y) = (sqrt x < sqrt (y * y))" by simp
  also have "\<dots> = (x < y * y)" by (rule real_sqrt_less_iff)
  finally show ?thesis .
qed

lemma sqrt_le_num: "0 \<le> y \<Longrightarrow> (sqrt x \<le> y) = (x \<le> y * y)"
proof -
  assume y: "0 \<le> y"
  have "sqrt (y * y) = y" using y by simp
  then have "(sqrt x \<le> y) = (sqrt x \<le> sqrt (y * y))" by simp
  also have "\<dots> = (x \<le> y * y)" by (rule real_sqrt_le_iff)
  finally show ?thesis .
qed

lemma sqrt_less_numeral: "(sqrt x < numeral n) = (x < numeral n * numeral n)"
  by (rule sqrt_less_num) simp

lemma sqrt_le_numeral: "(sqrt x \<le> numeral n) = (x \<le> numeral n * numeral n)"
  by (rule sqrt_le_num) simp

lemma dist2d_eq: "dist2d a b c d = sqrt ((a - c) * (a - c) + (b - d) * (b - d))"
  by (simp add: dist2d_def Let_def)

lemma dist2d_nonneg: "0 \<le> dist2d a b c d"
  by (simp add: dist2d_eq)

lemma sq_le_of_abs_le: "\<bar>u\<bar> \<le> \<bar>v\<bar> \<Longrightarrow> u * u \<le> (v::real) * v"
  by (metis abs_le_square_iff power2_eq_square)

lemma dist2d_mono:
  "\<bar>a - c\<bar> \<le> \<bar>a' - c'\<bar> \<Longrightarrow> \<bar>b - d\<bar> \<le> \<bar>b' - d'\<bar> \<Longrightarrow> dist2d a b c d \<le> dist2d a' b' c' d'"
  unfolding dist2d_eq
  by (intro real_sqrt_le_mono add_mono sq_le_of_abs_le)

section \<open>Facts about rounding to a double\<close>

lemma rhe_int [simp]: "round_half_even (of_int n) = n"
  by (simp add: round_half_even_def)

lemma rhe_bounds: "of_int (round_half_even r) \<le> r + 1 / 2 \<and> r - 1 / 2 \<le> of_int (round_half_even r)"
  unfolding round_half_even_def Let_def by (auto; linarith)

lemma rhe_floor_le: "\<lfloor>r\<rfloor> \<le> round_half_even r \<and> round_half_even r \<le> \<lfloor>r\<rfloor> + 1"
  by (simp add: round_half_even_def Let_def)

lemma rhe_mono: "r \<le> s \<Longrightarrow> round_half_even r \<le> round_half_even s"
proof -
  assume rs: "r \<le> s"
  show ?thesis
  proof (cases "\<lfloor>r\<rfloor> = \<lfloor>s\<rfloor>")
    case True
    then show ?thesis using rs unfolding round_half_even_def Let_def by auto
  next
    case False
    then have "\<lfloor>r\<rfloor> + 1 \<le> \<lfloor>s\<rfloor>" using rs floor_mono [OF rs] by linarith
    then show ?thesis using rhe_floor_le [of r] rhe_floor_le [of s] by linarith
  qed
qed

lemma rhe_zero [simp]: "round_half_even 0 = 0"
  using rhe_int [of 0] by simp

lemma rhe_nonneg: "0 \<le> r \<Longrightarrow> 0 \<le> round_half_even r"
  using rhe_mono [of 0 r] by simp

lemma ulp_pos: "0 < double_ulp x"
  by (simp add: double_ulp_def)

lemma double_round_nonneg: "0 \<le> x \<Longrightarrow> 0 \<le> double_round x"
  by (simp add: double_round_def rhe_nonneg ulp_pos less_imp_le sgn_if)

lemma double_round_nonpos: "x \<le> 0 \<Longrightarrow> double_round x \<le> 0"
proof (cases "x = 0")
  case True
  then show ?thesis by (simp add: double_round_def)
next
  case False
  assume "x \<le> 0"
  with False have neg: "x < 0" by simp
  have "0 \<le> \<bar>x\<bar> / double_ulp x" using ulp_pos [of x] by simp
  then have "0 \<le> round_half_even (\<bar>x\<bar> / double_ulp x)" by (rule rhe_nonneg)
  then have "0 \<le> of_int (round_half_even (\<bar>x\<bar> / double_ulp x)) * double_ulp x"
    using ulp_pos [of x] by simp
  then show ?thesis using neg False by (simp add: double_round_def)
qed

lemma exp_le: "0 < x \<Longrightarrow> 2 powr of_int \<lfloor>Transcendental.log 2 x\<rfloor> \<le> x"
proof -
  assume x: "0 < x"
  have "2 powr of_int \<lfloor>Transcendental.log 2 x\<rfloor> \<le> 2 powr (Transcendental.log 2 x)"
    by (rule powr_mono) simp_all
  then show ?thesis using x by simp
qed

lemma exp_gt: "0 < x \<Longrightarrow> x < 2 powr (of_int \<lfloor>Transcendental.log 2 x\<rfloor> + 1)"
proof -
  assume x: "0 < x"
  have "2 powr (Transcendental.log 2 x) < 2 powr (of_int \<lfloor>Transcendental.log 2 x\<rfloor> + 1)"
    by (rule powr_less_mono) simp_all
  then show ?thesis using x by simp
qed

lemma two_powr_52: "(2::real) powr (of_int e - 52) * 2 ^ 52 = 2 powr (of_int e)"
proof -
  have p: "(2::real) powr 52 = 2 ^ 52" by (rule powr_numeral) simp
  have "(2::real) powr (of_int e - 52) * 2 powr 52 = 2 powr (of_int e - 52 + 52)"
    by (simp only: powr_add)
  then show ?thesis by (simp only: p) simp
qed

lemma exponent_mono: "0 < x \<Longrightarrow> x \<le> y \<Longrightarrow> double_exponent x \<le> double_exponent y"
proof -
  assume "0 < x" "x \<le> y"
  then have "Transcendental.log 2 x \<le> Transcendental.log 2 y" by simp
  then have "\<lfloor>Transcendental.log 2 x\<rfloor> \<le> \<lfloor>Transcendental.log 2 y\<rfloor>" by (rule floor_mono)
  then show ?thesis using \<open>0 < x\<close> \<open>x \<le> y\<close> by (simp add: double_exponent_def)
qed

text \<open>A positive number and its rounding lie in the same binade, closed above.\<close>

lemma double_round_upper:
  assumes "0 < x"
  shows "double_round x \<le> 2 powr (of_int (double_exponent x) + 1)"
proof -
  let ?e = "double_exponent x"
  let ?u = "double_ulp x"
  have "x < 2 powr (of_int \<lfloor>Transcendental.log 2 x\<rfloor> + 1)" using assms by (rule exp_gt)
  also have "\<dots> \<le> 2 powr (of_int ?e + 1)"
    using assms by (intro powr_mono) (simp_all add: double_exponent_def)
  finally have xlt: "x < 2 powr (of_int ?e + 1)" .
  have u52: "?u * 2 ^ 52 = 2 powr (of_int ?e)" unfolding double_ulp_def by (rule two_powr_52)
  have "(2::real) powr (of_int ?e + 1) = 2 powr (of_int ?e) * 2" by (simp add: powr_add)
  also have "\<dots> = ?u * 2 ^ 53" using u52 by simp
  finally have top: "2 powr (of_int ?e + 1) = ?u * 2 ^ 53" .
  have "x / ?u \<le> 2 ^ 53" using xlt top ulp_pos [of x] by (simp add: field_simps)
  then have "round_half_even (x / ?u) \<le> round_half_even (of_int (2 ^ 53))"
    by (intro rhe_mono) simp
  then have "round_half_even (x / ?u) \<le> 2 ^ 53" by (simp only: rhe_int)
  then have "real_of_int (round_half_even (x / ?u)) \<le> 2 ^ 53"
    by (metis of_int_le_iff of_int_numeral of_int_power)
  then have "real_of_int (round_half_even (x / ?u)) * ?u \<le> 2 ^ 53 * ?u"
    using ulp_pos [of x] by (simp add: mult_right_mono)
  then show ?thesis using assms top by (simp add: double_round_def mult.commute)
qed

lemma double_round_lower:
  assumes "0 < x" "2 powr (of_int (double_exponent x)) \<le> x"
  shows "2 powr (of_int (double_exponent x)) \<le> double_round x"
proof -
  let ?e = "double_exponent x"
  let ?u = "double_ulp x"
  have u52: "?u * 2 ^ 52 = 2 powr (of_int ?e)" unfolding double_ulp_def by (rule two_powr_52)
  have "2 ^ 52 \<le> x / ?u" using assms(2) u52 ulp_pos [of x] by (simp add: field_simps)
  then have "round_half_even (of_int (2 ^ 52)) \<le> round_half_even (x / ?u)"
    by (intro rhe_mono) simp
  then have "2 ^ 52 \<le> round_half_even (x / ?u)" by (simp only: rhe_int)
  then have "2 ^ 52 \<le> real_of_int (round_half_even (x / ?u))"
    by (metis of_int_le_iff of_int_numeral of_int_power)
  then have "2 ^ 52 * ?u \<le> real_of_int (round_half_even (x / ?u)) * ?u"
    using ulp_pos [of x] by (simp add: mult_right_mono)
  then show ?thesis using assms u52 by (simp add: double_round_def mult.commute)
qed

lemma double_round_mono_pos:
  assumes "0 < x" "x \<le> y"
  shows "double_round x \<le> double_round y"
proof (cases "double_exponent x = double_exponent y")
  case True
  then have u: "double_ulp x = double_ulp y" by (simp add: double_ulp_def)
  have "x / double_ulp y \<le> y / double_ulp y"
    using assms ulp_pos [of y] by (simp add: divide_right_mono)
  then have "round_half_even (x / double_ulp y) \<le> round_half_even (y / double_ulp y)"
    by (rule rhe_mono)
  then have "real_of_int (round_half_even (x / double_ulp y)) * double_ulp y
             \<le> real_of_int (round_half_even (y / double_ulp y)) * double_ulp y"
    using ulp_pos [of y] by (simp add: mult_right_mono)
  then show ?thesis using assms by (simp add: double_round_def u)
next
  case False
  have ypos: "0 < y" using assms by simp
  have le: "double_exponent x \<le> double_exponent y" using assms by (rule exponent_mono)
  with False have lt: "double_exponent x + 1 \<le> double_exponent y" by simp
  then have "- 1022 < double_exponent y" by (simp add: double_exponent_def)
  then have ey: "double_exponent y = \<lfloor>Transcendental.log 2 y\<rfloor>" using ypos by (simp add: double_exponent_def)
  have "2 powr (of_int (double_exponent y)) \<le> y" unfolding ey using ypos by (rule exp_le)
  then have low: "2 powr (of_int (double_exponent y)) \<le> double_round y"
    using ypos by (intro double_round_lower)
  have "double_round x \<le> 2 powr (of_int (double_exponent x) + 1)"
    using assms(1) by (rule double_round_upper)
  also have "\<dots> \<le> 2 powr (of_int (double_exponent y))"
  proof (rule powr_mono)
    show "real_of_int (double_exponent x) + 1 \<le> real_of_int (double_exponent y)"
      using lt by linarith
    show "(1::real) \<le> 2" by simp
  qed
  finally show ?thesis using low by linarith
qed

lemma two_powr_int: "0 \<le> k \<Longrightarrow> (2::real) powr (of_int k) = 2 ^ nat k"
  by (metis of_int_of_nat_eq of_nat_nat powr_realpow zero_less_numeral)

lemma floor_log2_unique:
  assumes "0 < x" "2 powr (of_int e) \<le> x" "x < 2 powr (of_int e + 1)"
  shows "\<lfloor>Transcendental.log 2 x\<rfloor> = e"
proof (rule floor_unique)
  show "of_int e \<le> Transcendental.log 2 x" using assms by (simp add: le_log_iff)
  show "Transcendental.log 2 x < of_int e + 1" using assms by (simp add: log_less_iff)
qed

lemma double_round_underflow:
  assumes "0 < x" "x < 2 powr (- 1075)"
  shows "double_round x = 0"
proof -
  have "Transcendental.log 2 x < - 1075" using assms by (simp add: log_less_iff)
  then have "\<lfloor>Transcendental.log 2 x\<rfloor> < - 1075" by (simp add: floor_less_iff)
  then have e: "double_exponent x = - 1022" using assms(1) by (simp add: double_exponent_def)
  have u: "double_ulp x = 2 powr (- 1074)" by (simp add: double_ulp_def e)
  have "(2::real) powr (- 1074) = 2 powr (- 1075 + 1)" by simp
  also have "\<dots> = 2 powr (- 1075) * 2 powr 1" by (simp only: powr_add)
  finally have "(2::real) powr (- 1074) = 2 powr (- 1075) * 2" by simp
  then have h: "(2::real) powr (- 1075) = 2 powr (- 1074) / 2" by simp
  have lt: "x / double_ulp x < 1 / 2"
    using assms(2) unfolding u h by (simp add: field_simps)
  have ge: "0 \<le> x / double_ulp x" using assms(1) ulp_pos [of x] by simp
  have lt1: "x / double_ulp x < 1" using lt by linarith
  have fl: "\<lfloor>x / double_ulp x\<rfloor> = 0"
  proof (rule floor_unique)
    show "of_int 0 \<le> x / double_ulp x" using ge by simp
    show "x / double_ulp x < of_int 0 + 1" using lt1 by simp
  qed
  have "round_half_even (x / double_ulp x) = 0"
    using lt by (simp add: round_half_even_def fl)
  then show ?thesis using assms(1) by (simp add: double_round_def)
qed

lemma double_round_of_int:
  assumes "0 < n" "n < 2 ^ 53"
  shows "double_round (of_int n) = of_int n"
proof -
  let ?x = "real_of_int n"
  have xpos: "0 < ?x" using assms by simp
  have "1 \<le> ?x" using assms by simp
  then have l0: "0 \<le> Transcendental.log 2 ?x" by simp
  then have e0: "0 \<le> \<lfloor>Transcendental.log 2 ?x\<rfloor>" by simp
  have "?x < 2 ^ 53" using assms(2) by (metis of_int_less_iff of_int_numeral of_int_power)
  also have "\<dots> = 2 powr 53" by (rule powr_numeral [symmetric]) simp
  finally have "Transcendental.log 2 ?x < 53" using xpos by (simp add: log_less_iff)
  then have "\<lfloor>Transcendental.log 2 ?x\<rfloor> < 53" by (simp add: floor_less_iff)
  then have e52: "\<lfloor>Transcendental.log 2 ?x\<rfloor> \<le> 52" by simp
  define e where "e = \<lfloor>Transcendental.log 2 ?x\<rfloor>"
  have ax: "\<bar>?x\<bar> = ?x" using xpos by simp
  have ex: "double_exponent ?x = e" unfolding double_exponent_def ax e_def using e0 by simp
  have u: "double_ulp ?x = 2 powr (of_int e - 52)" by (simp add: double_ulp_def ex)
  have k: "0 \<le> 52 - e" using e52 by (simp add: e_def)
  have "(2::real) powr (of_int (52 - e)) = 2 powr (- (of_int e - 52))" by simp
  also have "\<dots> = 1 / (2 powr (of_int e - 52))" by (rule powr_minus_divide)
  finally have inv: "(2::real) powr (of_int (52 - e)) = 1 / (2 powr (of_int e - 52))" .
  have "?x / double_ulp ?x = ?x * 2 powr (of_int (52 - e))"
    unfolding u inv by simp
  also have "\<dots> = ?x * 2 ^ nat (52 - e)" using k by (simp only: two_powr_int)
  also have "\<dots> = of_int (n * 2 ^ nat (52 - e))" by simp
  finally have q: "?x / double_ulp ?x = of_int (n * 2 ^ nat (52 - e))" .
  have "round_half_even (?x / double_ulp ?x) = n * 2 ^ nat (52 - e)"
    unfolding q by (rule rhe_int)
  then have "real_of_int (round_half_even (?x / double_ulp ?x)) * double_ulp ?x
             = (?x / double_ulp ?x) * double_ulp ?x" using q by simp
  also have "\<dots> = ?x" using ulp_pos [of ?x] by simp
  finally show ?thesis using xpos by (simp add: double_round_def)
qed

lemma double_round_one: "double_round 1 = 1"
  using double_round_of_int [of 1] by simp

lemma double_round_99:
  "double_round (99 / 100) = 4458563631096791 / 4503599627370496"
proof -
  have h0: "(2::real) powr (- 1) = 1 / 2"
    using powr_minus_divide [of "2::real" 1] by simp
  have h1: "(2::real) powr (of_int (- 1)) = 1 / 2"
    using h0 by simp
  have z: "of_int (- 1) + 1 = (0::real)" by simp
  have h2: "(2::real) powr (of_int (- 1) + 1) = 1" unfolding z by simp
  have e: "\<lfloor>Transcendental.log 2 (99 / 100 :: real)\<rfloor> = - 1"
  proof (rule floor_log2_unique)
    show "(0::real) < 99 / 100" by simp
    show "(2::real) powr (of_int (- 1)) \<le> 99 / 100" unfolding h1 by simp
    show "(99 / 100 :: real) < 2 powr (of_int (- 1) + 1)" unfolding h2 by simp
  qed
  have a: "\<bar>99 / 100 :: real\<bar> = 99 / 100" by simp
  have ex: "double_exponent (99 / 100) = - 1" unfolding double_exponent_def a e by simp
  have p: "(2::real) powr 53 = 9007199254740992"
    using powr_numeral [of "2::real" "num.Bit1 (num.Bit0 (num.Bit1 (num.Bit0 (num.Bit1 num.One))))"]
    by simp
  have "(2::real) powr (- 53) = 1 / 2 powr 53" by (rule powr_minus_divide)
  then have u53: "(2::real) powr (- 53) = 1 / 9007199254740992" unfolding p .
  have u: "double_ulp (99 / 100) = 1 / 9007199254740992"
    unfolding double_ulp_def ex using u53 by simp
  have q: "(99 / 100 :: real) / (1 / 9007199254740992) = 8917127262193582 + 2 / 25" by simp
  have fl: "\<lfloor>8917127262193582 + 2 / 25 :: real\<rfloor> = 8917127262193582"
    by (simp add: floor_eq_iff)
  have r: "round_half_even (8917127262193582 + 2 / 25) = 8917127262193582"
    unfolding round_half_even_def fl Let_def by simp
  have "double_round (99 / 100) = real_of_int 8917127262193582 * (1 / 9007199254740992)"
    unfolding double_round_def a u q r by simp
  then show ?thesis by simp
qed

lemma double_round_minus: "double_round (- x) = - double_round x"
  by (simp add: double_round_def double_ulp_def double_exponent_def sgn_if)

lemma double_round_mono:
  assumes "x \<le> y"
  shows "double_round x \<le> double_round y"
proof (cases "0 < x")
  case True
  then show ?thesis using assms by (rule double_round_mono_pos)
next
  case False
  then have x0: "x \<le> 0" by simp
  show ?thesis
  proof (cases "0 \<le> y")
    case True
    then show ?thesis using double_round_nonpos [OF x0] double_round_nonneg [OF True] by linarith
  next
    case False
    then have "0 < - y" "- y \<le> - x" using assms by simp_all
    then have "double_round (- y) \<le> double_round (- x)" by (rule double_round_mono_pos)
    then show ?thesis by (simp add: double_round_minus)
  qed
qed

lemma double_round_error:
  assumes "0 < x"
  shows "\<bar>double_round x - x\<bar> \<le> double_ulp x / 2"
proof -
  let ?u = "double_ulp x"
  let ?q = "x / ?u"
  have u: "0 < ?u" by (rule ulp_pos)
  have b: "of_int (round_half_even ?q) \<le> ?q + 1 / 2 \<and> ?q - 1 / 2 \<le> of_int (round_half_even ?q)"
    by (rule rhe_bounds)
  have q: "?q * ?u = x" using u by simp
  have "\<bar>real_of_int (round_half_even ?q) - ?q\<bar> \<le> 1 / 2" using b by linarith
  then have "\<bar>real_of_int (round_half_even ?q) - ?q\<bar> * ?u \<le> 1 / 2 * ?u"
    using u by (simp add: mult_right_mono)
  moreover have "\<bar>real_of_int (round_half_even ?q) - ?q\<bar> * ?u
                 = \<bar>real_of_int (round_half_even ?q) * ?u - ?q * ?u\<bar>"
  proof -
    have "\<bar>real_of_int (round_half_even ?q) - ?q\<bar> * ?u
          = \<bar>(real_of_int (round_half_even ?q) - ?q) * ?u\<bar>"
      using u by (simp add: abs_mult)
    then show ?thesis by (simp only: left_diff_distrib)
  qed
  ultimately have "\<bar>real_of_int (round_half_even ?q) * ?u - x\<bar> \<le> ?u / 2"
    unfolding q by simp
  then show ?thesis using assms by (simp add: double_round_def)
qed

text \<open>In the normal range the unit in the last place is at most \<open>x / 2^52\<close>.\<close>

lemma ulp_normal:
  assumes "2 powr (- 1022) \<le> x"
  shows "double_ulp x \<le> x / 2 ^ 52"
proof -
  have xpos: "0 < x" using assms powr_gt_zero [of 2 "- 1022"] by linarith
  have "- 1022 \<le> Transcendental.log 2 x" using assms xpos by (simp add: le_log_iff)
  then have "- 1022 \<le> \<lfloor>Transcendental.log 2 x\<rfloor>" by (simp add: le_floor_iff)
  then have e: "double_exponent x = \<lfloor>Transcendental.log 2 x\<rfloor>" using xpos by (simp add: double_exponent_def)
  have "double_ulp x * 2 ^ 52 = 2 powr (of_int (double_exponent x))"
    unfolding double_ulp_def by (rule two_powr_52)
  also have "\<dots> \<le> x" unfolding e using xpos by (rule exp_le)
  finally show ?thesis by (simp add: field_simps)
qed

lemma ulp_mono: "0 < x \<Longrightarrow> x \<le> y \<Longrightarrow> double_ulp x \<le> double_ulp y"
  unfolding double_ulp_def using exponent_mono [of x y] by (intro powr_mono) simp_all

text \<open>Two numbers far enough apart, the larger one normal, round to different doubles.\<close>

lemma double_round_strict:
  assumes "0 < y" "2 powr (- 1022) \<le> x" "y \<le> x * (1 - 1 / 2 ^ 51)"
  shows "double_round y < double_round x"
proof -
  have xpos: "0 < x" using assms(2) powr_gt_zero [of 2 "- 1022"] by linarith
  define t where "t = x / 2 ^ 52"
  have tpos: "0 < t" using xpos by (simp add: t_def)
  have y': "y \<le> x - 2 * t" using assms(3) by (simp add: t_def field_simps)
  have yx: "y \<le> x" using y' tpos by linarith
  have ux: "double_ulp x \<le> x / 2 ^ 52" using assms(2) by (rule ulp_normal)
  have uy: "double_ulp y \<le> double_ulp x" using assms(1) yx by (rule ulp_mono)
  have ey: "\<bar>double_round y - y\<bar> \<le> double_ulp y / 2" using assms(1) by (rule double_round_error)
  have ex: "\<bar>double_round x - x\<bar> \<le> double_ulp x / 2" using xpos by (rule double_round_error)
  have ux': "double_ulp x \<le> t" using ux by (simp add: t_def)
  have "double_round y \<le> y + t / 2" using ey uy ux' by linarith
  moreover have "x - t / 2 \<le> double_round x" using ex ux' by linarith
  ultimately show ?thesis using y' tpos by linarith
qed

text \<open>
  Numbers up to 128 round with an error of at most \<open>2^-46\<close>; what that makes of a distance, of
  a quotient by it and of one coordinate of a step.
\<close>

lemma ulp_128: "double_ulp 128 = 1 / 2 ^ 45"
proof -
  have p7: "(2::real) powr 7 = 128"
    using powr_numeral [of "2::real" "num.Bit1 (num.Bit1 num.One)"] by simp
  have p8: "(2::real) powr 8 = 256"
    using powr_numeral [of "2::real" "num.Bit0 (num.Bit0 (num.Bit0 num.One))"] by simp
  have e: "\<lfloor>Transcendental.log 2 (128::real)\<rfloor> = 7"
  proof (rule floor_log2_unique)
    show "(0::real) < 128" by simp
    show "(2::real) powr (of_int 7) \<le> 128" using p7 by simp
    have "(2::real) powr (of_int 7 + 1) = 2 powr 8" by simp
    then show "(128::real) < 2 powr (of_int 7 + 1)" using p8 by simp
  qed
  have ex: "double_exponent 128 = 7" unfolding double_exponent_def using e by simp
  have "(2::real) powr (- 45) = 1 / 2 powr 45" by (rule powr_minus_divide)
  also have "(2::real) powr 45 = 2 ^ 45"
    using powr_realpow [of "2::real" 45] by simp
  finally show ?thesis unfolding double_ulp_def ex by simp
qed

lemma dr_err:
  assumes "\<bar>v\<bar> \<le> 128"
  shows "\<bar>double_round v - v\<bar> \<le> 1 / 2 ^ 46"
proof -
  have pos: "\<bar>double_round w - w\<bar> \<le> 1 / 2 ^ 46" if w: "0 < w" "w \<le> 128" for w
  proof -
    have "\<bar>double_round w - w\<bar> \<le> double_ulp w / 2" using w(1) by (rule double_round_error)
    also have "\<dots> \<le> double_ulp 128 / 2" using ulp_mono [OF w] by simp
    also have "\<dots> = 1 / 2 ^ 46" unfolding ulp_128 by simp
    finally show ?thesis .
  qed
  consider "v = 0" | "0 < v" | "v < 0" by linarith
  then show ?thesis
  proof cases
    case 1
    then show ?thesis by (simp add: double_round_def)
  next
    case 2
    then show ?thesis using assms by (intro pos) simp_all
  next
    case 3
    then have "\<bar>double_round (- v) - (- v)\<bar> \<le> 1 / 2 ^ 46" using assms by (intro pos) simp_all
    then have "\<bar>- double_round v + v\<bar> \<le> 1 / 2 ^ 46" by (simp only: double_round_minus minus_minus)
    moreover have "\<bar>- double_round v + v\<bar> = \<bar>double_round v - v\<bar>" by linarith
    ultimately show ?thesis by simp
  qed
qed

lemma norm2_triangle:
  "sqrt ((a + c) * (a + c) + (b + d) * (b + d)) \<le> sqrt (a * a + b * b) + sqrt (c * c + d * d)"
  using real_sqrt_sum_squares_triangle_ineq [of a c b d] by (simp add: power2_eq_square)

lemma norm2_le_abs: "sqrt (a * a + b * b) \<le> \<bar>a\<bar> + \<bar>b\<bar>"
  using sqrt_sum_squares_le_sum_abs [of a b] by (simp add: power2_eq_square)

lemma norm2_diff: "\<bar>sqrt (a * a + b * b) - sqrt (c * c + d * d)\<bar> \<le> \<bar>a - c\<bar> + \<bar>b - d\<bar>"
proof -
  have "sqrt (a * a + b * b) \<le> sqrt (c * c + d * d) + sqrt ((a - c) * (a - c) + (b - d) * (b - d))"
    using norm2_triangle [of c "a - c" d "b - d"] by simp
  moreover have "sqrt (c * c + d * d) \<le> sqrt (a * a + b * b) + sqrt ((c - a) * (c - a) + (d - b) * (d - b))"
    using norm2_triangle [of a "c - a" b "d - b"] by simp
  moreover have "sqrt ((a - c) * (a - c) + (b - d) * (b - d)) \<le> \<bar>a - c\<bar> + \<bar>b - d\<bar>"
    by (rule norm2_le_abs)
  moreover have "sqrt ((c - a) * (c - a) + (d - b) * (d - b)) \<le> \<bar>c - a\<bar> + \<bar>d - b\<bar>"
    by (rule norm2_le_abs)
  ultimately show ?thesis by linarith
qed

lemma hypot_err:
  assumes "\<bar>u\<bar> \<le> 32" "\<bar>v\<bar> \<le> 32"
  shows "\<bar>Math_hypot (double_round u) (double_round v) - sqrt (u * u + v * v)\<bar> \<le> 3 / 2 ^ 46"
proof -
  define E :: real where "E = 1 / 2 ^ 46"
  have Es: "0 \<le> E" "E \<le> 1" by (simp_all add: E_def)
  define u' where "u' = double_round u"
  define v' where "v' = double_round v"
  have eu: "\<bar>u' - u\<bar> \<le> E" unfolding u'_def E_def using assms(1) by (intro dr_err) simp
  have ev: "\<bar>v' - v\<bar> \<le> E" unfolding v'_def E_def using assms(2) by (intro dr_err) simp
  define S where "S = sqrt (u' * u' + v' * v')"
  have sd: "\<bar>S - sqrt (u * u + v * v)\<bar> \<le> 2 * E"
    unfolding S_def using norm2_diff [of u' v' u v] eu ev by linarith
  have "sqrt (u * u + v * v) \<le> 64" using norm2_le_abs [of u v] assms by linarith
  moreover have "0 \<le> S" by (simp add: S_def)
  ultimately have "\<bar>S\<bar> \<le> 128" using sd Es by linarith
  then have "\<bar>double_round S - S\<bar> \<le> E" unfolding E_def by (rule dr_err)
  then have "\<bar>double_round S - sqrt (u * u + v * v)\<bar> \<le> 3 * E" using sd by linarith
  then show ?thesis by (simp add: Math_hypot_def S_def u'_def v'_def E_def)
qed

lemma unit_err:
  fixes a d e D E :: real
  assumes "0 < D" "\<bar>e\<bar> \<le> D" "\<bar>d - D\<bar> \<le> 3 * E" "1 / 128 \<le> d" "\<bar>a - e\<bar> \<le> E"
  shows "\<bar>a / d - e / D\<bar> \<le> 512 * E"
proof -
  have dpos: "0 < d" using assms(4) by linarith
  have E0: "0 \<le> E" using assms(5) by linarith
  have split: "a / d - e / D = (a - e) / d + (e / D) * ((D - d) / d)"
    using dpos assms(1) by (simp add: field_simps)
  have inv: "1 / d \<le> 128" using assms(4) dpos by (simp add: field_simps)
  have t1: "\<bar>(a - e) / d\<bar> \<le> 128 * E"
  proof -
    have "\<bar>(a - e) / d\<bar> = \<bar>a - e\<bar> * (1 / d)" using dpos by simp
    also have "\<dots> \<le> E * 128" using assms(5) inv dpos by (intro mult_mono) simp_all
    finally show ?thesis by simp
  qed
  have u1: "\<bar>e / D\<bar> \<le> 1" using assms(1,2) by simp
  have t2: "\<bar>(D - d) / d\<bar> \<le> 384 * E"
  proof -
    have "\<bar>(D - d) / d\<bar> = \<bar>d - D\<bar> * (1 / d)" using dpos by (simp add: abs_minus_commute)
    also have "\<dots> \<le> (3 * E) * 128" using assms(3) inv dpos E0 by (intro mult_mono) simp_all
    finally show ?thesis by simp
  qed
  have "\<bar>(e / D) * ((D - d) / d)\<bar> = \<bar>e / D\<bar> * \<bar>(D - d) / d\<bar>" by (rule abs_mult)
  also have "\<dots> \<le> 1 * (384 * E)" using u1 t2 by (intro mult_mono) simp_all
  finally have t3: "\<bar>(e / D) * ((D - d) / d)\<bar> \<le> 384 * E" by simp
  have "\<bar>(a - e) / d + (e / D) * ((D - d) / d)\<bar>
        \<le> \<bar>(a - e) / d\<bar> + \<bar>(e / D) * ((D - d) / d)\<bar>" by (rule abs_triangle_ineq)
  also have "\<dots> \<le> 128 * E + 384 * E" using t1 t3 by (rule add_mono)
  finally show ?thesis unfolding split by simp
qed

lemma coord_err:
  fixes x tx D d s :: real
  assumes box: "0 \<le> x" "x \<le> 32" "0 \<le> tx" "tx \<le> 32"
    and D: "\<bar>tx - x\<bar> \<le> D" "D \<le> 46"
    and d: "\<bar>d - D\<bar> \<le> 3 / 2 ^ 46" "1 / 128 \<le> d"
    and s: "0 \<le> s"
  shows "\<bar>double_round (x + double_round (double_round (double_round (tx - x) / d) * min s d))
          - (x + (tx - x) / D * min s D)\<bar> \<le> 1 / 10 ^ 9"
proof -
  define E :: real where "E = 1 / 2 ^ 46"
  have Es: "0 < E" "E \<le> 1 / 10000000000000" by (simp_all add: E_def)
  have d3: "\<bar>d - D\<bar> \<le> 3 * E" using d(1) by (simp add: E_def)
  have Dpos: "0 < D" using d3 d(2) Es by linarith
  define e where "e = tx - x"
  have e32: "\<bar>e\<bar> \<le> 32" unfolding e_def using box by linarith
  define a where "a = double_round e"
  have ea: "\<bar>a - e\<bar> \<le> E" unfolding a_def E_def using e32 by (intro dr_err) simp
  define q where "q = a / d"
  have eq: "\<bar>q - e / D\<bar> \<le> 512 * E"
    unfolding q_def using Dpos D(1) d3 d(2) ea unfolding e_def [symmetric] by (rule unit_err)
  have u1: "\<bar>e / D\<bar> \<le> 1" using Dpos D(1) by (simp add: e_def)
  have q2: "\<bar>q\<bar> \<le> 128" using eq u1 Es by linarith
  define dx where "dx = double_round q"
  have edx0: "\<bar>dx - q\<bar> \<le> E" unfolding dx_def E_def using q2 by (rule dr_err)
  have edx: "\<bar>dx - e / D\<bar> \<le> 513 * E" using edx0 eq by linarith
  have dxb: "\<bar>dx\<bar> \<le> 3 / 2" using edx u1 Es by linarith
  define stp where "stp = min s d"
  define m where "m = min s D"
  have est: "\<bar>stp - m\<bar> \<le> 3 * E" unfolding stp_def m_def using d3 by linarith
  have stb: "0 \<le> stp" "stp \<le> 47" unfolding stp_def using s d(2) d3 D(2) Es by linarith+
  have mb: "0 \<le> m" "m \<le> 46" unfolding m_def using s Dpos D(2) by linarith+
  define p where "p = dx * stp"
  have pb: "\<bar>p\<bar> \<le> 71"
  proof -
    have "\<bar>p\<bar> = \<bar>dx\<bar> * \<bar>stp\<bar>" unfolding p_def by (rule abs_mult)
    also have "\<dots> \<le> (3 / 2) * 47" using dxb stb by (intro mult_mono) simp_all
    finally show ?thesis by simp
  qed
  have split: "p - e / D * m = dx * (stp - m) + m * (dx - e / D)"
    unfolding p_def by (simp add: algebra_simps)
  have t1: "\<bar>dx * (stp - m)\<bar> \<le> 5 * E"
  proof -
    have "\<bar>dx * (stp - m)\<bar> = \<bar>dx\<bar> * \<bar>stp - m\<bar>" by (rule abs_mult)
    also have "\<dots> \<le> (3 / 2) * (3 * E)" using dxb est by (intro mult_mono) simp_all
    finally show ?thesis using Es by linarith
  qed
  have t2: "\<bar>m * (dx - e / D)\<bar> \<le> 23598 * E"
  proof -
    have "\<bar>m * (dx - e / D)\<bar> = \<bar>m\<bar> * \<bar>dx - e / D\<bar>" by (rule abs_mult)
    also have "\<dots> \<le> 46 * (513 * E)" using mb edx by (intro mult_mono) simp_all
    finally show ?thesis by simp
  qed
  have "\<bar>dx * (stp - m) + m * (dx - e / D)\<bar>
        \<le> \<bar>dx * (stp - m)\<bar> + \<bar>m * (dx - e / D)\<bar>" by (rule abs_triangle_ineq)
  also have "\<dots> \<le> 5 * E + 23598 * E" using t1 t2 by (rule add_mono)
  finally have ep: "\<bar>p - e / D * m\<bar> \<le> 23603 * E" unfolding split by simp
  define r where "r = double_round p"
  have er: "\<bar>r - p\<bar> \<le> E" unfolding r_def E_def using pb by (intro dr_err) simp
  define w where "w = x + r"
  have wb: "\<bar>w\<bar> \<le> 128" unfolding w_def using box pb er Es by linarith
  have ew: "\<bar>double_round w - w\<bar> \<le> E" unfolding E_def using wb by (rule dr_err)
  have "\<bar>double_round w - (x + e / D * m)\<bar> \<le> 23605 * E"
    using ew er ep unfolding w_def by linarith
  also have "\<dots> \<le> 1 / 10 ^ 9" by (simp add: E_def)
  finally show ?thesis
    unfolding w_def r_def p_def dx_def q_def a_def e_def stp_def m_def .
qed

text \<open>
  Powers of the double of \<^verbatim>\<open>0.99\<close>: below half the least positive double from 74460 on, in
  the normal range up to 69000, and a step of \<open>1 / 4000000\<close> in the exponent is a factor that
  two neighbouring doubles cannot both round.
\<close>

lemma d099_bounds: "0 < d099" "d099 < 1" "d099 \<le> 99 / 100" "9899999 / 10000000 \<le> d099"
  by (simp_all add: d099_def)

lemma p69: "(99 / 100 :: real) ^ 69 < 1 / 2"
  by (simp add: power_divide)

lemma b69: "4997 / 10000 \<le> (9899999 / 10000000 :: real) ^ 69"
  by (simp add: power_divide)

lemma two_powr_neg: "(2::real) powr (- real n) = (1 / 2) ^ n"
proof -
  have "(2::real) powr (- real n) = 1 / 2 powr (real n)" by (rule powr_minus_divide)
  also have "\<dots> = 1 / 2 ^ n" by (simp add: powr_realpow)
  finally show ?thesis by (simp add: power_divide)
qed

lemma pow_underflow:
  assumes "74460 \<le> h"
  shows "0 < d099 powr h" and "d099 powr h < 2 powr (- 1075)"
proof -
  show "0 < d099 powr h" using d099_bounds(1) by simp
  have "d099 powr h \<le> d099 powr (real (69 * 1079))"
    using assms d099_bounds by (intro powr_mono') simp_all
  also have "\<dots> = d099 ^ (69 * 1079)" using d099_bounds(1) by (rule powr_realpow)
  also have "\<dots> \<le> (99 / 100) ^ (69 * 1079)"
    using d099_bounds by (intro power_mono) simp_all
  also have "\<dots> = ((99 / 100) ^ 69) ^ 1079" by (rule power_mult)
  also have "\<dots> < (1 / 2) ^ 1079"
    using p69 by (intro power_strict_mono) simp_all
  also have "\<dots> = 2 powr (- real 1079)" by (rule two_powr_neg [symmetric])
  also have "\<dots> \<le> 2 powr (- 1075)" by (intro powr_mono) simp_all
  finally show "d099 powr h < 2 powr (- 1075)" .
qed

lemma pow_normal:
  assumes "0 \<le> h" "h \<le> 69000"
  shows "2 powr (- 1022) \<le> d099 powr h"
proof -
  have bern: "1 + real 1014 * (- (6 / 10000)) \<le> (1 + (- (6 / 10000) :: real)) ^ 1014"
    by (rule Bernoulli_inequality) simp
  have half: "(1 / 4 :: real) \<le> (9994 / 10000) ^ 1014"
  proof -
    have "(1 / 4 :: real) \<le> 1 + real 1014 * (- (6 / 10000))" by simp
    also have "\<dots> \<le> (1 + (- (6 / 10000) :: real)) ^ 1014" by (rule bern)
    also have "(1 + (- (6 / 10000) :: real)) = 9994 / 10000" by simp
    finally show ?thesis .
  qed
  have "(2::real) powr (- 1022) \<le> 2 powr (- real 1016)" by (intro powr_mono) simp_all
  also have "\<dots> = (1 / 2) ^ 1016" by (rule two_powr_neg)
  also have "\<dots> = (1 / 2) ^ 1014 * (1 / 4)"
  proof -
    have "(1 / 2 :: real) ^ 1016 = (1 / 2) ^ (1014 + 2)" by simp
    also have "\<dots> = (1 / 2) ^ 1014 * (1 / 2) ^ 2" by (rule power_add)
    also have "(1 / 2 :: real) ^ 2 = 1 / 4" by (simp add: power2_eq_square)
    finally show ?thesis .
  qed
  also have "\<dots> \<le> (1 / 2) ^ 1014 * (9994 / 10000) ^ 1014"
    using half by (intro mult_left_mono) simp_all
  also have "\<dots> = (1 / 2 * (9994 / 10000)) ^ 1014" by (simp only: power_mult_distrib)
  also have "\<dots> = (4997 / 10000) ^ 1014" by simp
  also have "\<dots> \<le> ((9899999 / 10000000) ^ 69) ^ 1014"
    using b69 by (intro power_mono) simp_all
  also have "\<dots> = (9899999 / 10000000) ^ (69 * 1014)" by (rule power_mult [symmetric])
  also have "\<dots> \<le> d099 ^ (69 * 1014)"
    using d099_bounds by (intro power_mono) simp_all
  also have "\<dots> = d099 powr (real (69 * 1014))" using d099_bounds(1) by (rule powr_realpow [symmetric])
  also have "\<dots> \<le> d099 powr h"
    using assms d099_bounds by (intro powr_mono') simp_all
  finally show ?thesis .
qed

lemma pow_shrink:
  assumes "1 / 4000000 \<le> d"
  shows "d099 powr d \<le> 1 - 1 / 2 ^ 51"
proof -
  define t :: real where "t = 1 / 400000000"
  have "d099 powr d \<le> d099 powr (1 / 4000000)"
    using assms d099_bounds by (intro powr_mono') simp_all
  also have "\<dots> \<le> (99 / 100) powr (1 / 4000000)"
    using d099_bounds by (intro powr_mono2) simp_all
  also have "\<dots> = exp (1 / 4000000 * ln (99 / 100))" by (simp add: powr_def)
  also have "\<dots> \<le> exp (- t)"
  proof -
    have "ln (99 / 100 :: real) \<le> 99 / 100 - 1" by (rule ln_le_minus_one) simp
    then have "1 / 4000000 * ln (99 / 100 :: real) \<le> - t" by (simp add: t_def)
    then show ?thesis by simp
  qed
  also have "\<dots> \<le> 1 / (1 + t)"
  proof -
    have "1 + t \<le> exp t" by (rule exp_ge_add_one_self)
    moreover have "0 < 1 + t" by (simp add: t_def)
    ultimately have "1 / exp t \<le> 1 / (1 + t)" by (simp add: frac_le)
    then show ?thesis by (simp add: exp_minus inverse_eq_divide)
  qed
  also have "\<dots> \<le> 1 - 1 / 2 ^ 51" by (simp add: t_def)
  finally show ?thesis .
qed

section \<open>Facts about the memory stream\<close>

lemma df_count_bump:
  "distinct ts \<Longrightarrow>
   df_count (foldl (\<lambda>m t. m(t \<mapsto> df_count m t + 1)) m ts) t =
     df_count m t + (if t \<in> set ts then 1 else 0)"
proof (induction ts arbitrary: m)
  case Nil
  then show ?case by simp
next
  case (Cons a ts)
  then show ?case by (auto simp: df_count_def)
qed

lemma df_count_add:
  "df_count (df (add s r)) t = df_count (df s) t + (if t \<in> set (tokens r) then 1 else 0)"
  using df_count_bump [OF distinct_uniq, of "df s" "tokens r" t]
  by (simp add: add_def set_uniq)

lemma records_add: "records (add s r) = records s @ [r]"
  by (simp add: add_def)

lemma keys_tfidf_aux:
  "fst ` set (foldl (\<lambda>out (t, n). map_set out t (g t n)) out m) = fst ` set out \<union> fst ` set m"
proof (induction m arbitrary: out)
  case Nil
  then show ?case by simp
next
  case (Cons p m)
  obtain t n where p: "p = (t, n)" by (cases p)
  have "fst ` set (foldl (\<lambda>out (t, n). map_set out t (g t n)) (map_set out t (g t n)) m)
        = fst ` set (map_set out t (g t n)) \<union> fst ` set m"
    by (rule Cons.IH)
  then show ?case by (simp add: keys_map_set p)
qed

lemma keys_tfidf: "fst ` set (tfidf s m) = fst ` set m"
  by (simp add: tfidf_def keys_tfidf_aux)

lemma keys_count_aux:
  "fst ` set (foldl (\<lambda>tf t. map_set tf t (h tf t)) m ts) = fst ` set m \<union> set ts"
proof (induction ts arbitrary: m)
  case Nil
  then show ?case by simp
next
  case (Cons t ts)
  have "fst ` set (foldl (\<lambda>tf t. map_set tf t (h tf t)) (map_set m t (h m t)) ts)
        = fst ` set (map_set m t (h m t)) \<union> set ts"
    by (rule Cons.IH)
  then show ?case by (simp add: keys_map_set)
qed

lemma keys_count_tokens: "fst ` set (count_tokens ts) = set ts"
  by (simp add: count_tokens_def keys_count_aux)

lemma dot_loop_disjoint:
  "fst ` set a \<inter> fst ` set b = {} \<Longrightarrow>
   fst (foldl (\<lambda>(dot, normA) (k, wa).
                 (case map_of b k of None \<Rightarrow> dot | Some wb \<Rightarrow> dot + wa * wb, normA + wa * wa))
              (d, n) a) = (d::real)"
proof (induction a arbitrary: d n)
  case Nil
  then show ?case by simp
next
  case (Cons p a)
  obtain k wa where p: "p = (k, wa)" by (cases p)
  from Cons.prems p have "k \<notin> fst ` set b" by auto
  then have "map_of b k = None" by (simp add: map_of_eq_None_iff)
  moreover from Cons.prems have "fst ` set a \<inter> fst ` set b = {}" by auto
  ultimately show ?case using Cons.IH p by simp
qed

lemma normA_loop:
  "snd (foldl (\<lambda>(dot, normA) (k, wa).
                 (case map_of b k of None \<Rightarrow> dot | Some wb \<Rightarrow> dot + wa * wb, normA + wa * wa))
              (d, n) a) = (n::real) + (\<Sum>(k, w)\<leftarrow>a. w * w)"
  by (induction a arbitrary: d n) (auto split: prod.splits)

lemma normB_loop:
  "foldl (\<lambda>normB (k, wb). normB + wb * wb) n b = (n::real) + (\<Sum>(k, w)\<leftarrow>b. w * w)"
  by (induction b arbitrary: n) (auto split: prod.splits)

lemma cosineSparse_disjoint:
  assumes "fst ` set a \<inter> fst ` set b = {}"
  shows "cosineSparse a b = 0"
proof -
  obtain d n where dn: "foldl (\<lambda>(dot, normA) (k, wa).
                 (case map_of b k of None \<Rightarrow> dot | Some wb \<Rightarrow> dot + wa * wb, normA + wa * wa))
              (0, 0) a = (d, n)" by (cases "foldl (\<lambda>(dot, normA) (k, wa).
                 (case map_of b k of None \<Rightarrow> dot | Some wb \<Rightarrow> dot + wa * wb, normA + wa * wa))
              (0::real, 0::real) a")
  have "d = 0" using dot_loop_disjoint [OF assms, of 0 0] dn by simp
  then show ?thesis by (simp add: cosineSparse_def dn Let_def)
qed

lemma cosineSparse_zero_norm:
  assumes "(\<Sum>(k, w)\<leftarrow>a. w * w) = 0 \<or> (\<Sum>(k, w)\<leftarrow>b. w * w) = 0"
  shows "cosineSparse a b = 0"
proof -
  obtain d n where dn: "foldl (\<lambda>(dot, normA) (k, wa).
                 (case map_of b k of None \<Rightarrow> dot | Some wb \<Rightarrow> dot + wa * wb, normA + wa * wa))
              (0, 0) a = (d, n)" by (cases "foldl (\<lambda>(dot, normA) (k, wa).
                 (case map_of b k of None \<Rightarrow> dot | Some wb \<Rightarrow> dot + wa * wb, normA + wa * wa))
              (0::real, 0::real) a")
  have n: "n = (\<Sum>(k, w)\<leftarrow>a. w * w)" using normA_loop [of b 0 0 a] dn by simp
  show ?thesis using assms by (auto simp: cosineSparse_def dn n normB_loop Let_def)
qed

lemma sc_relevance_eq: "sc_relevance (score_record s qv now r) = cosineSparse qv (tfidf s (tf r))"
  by (simp add: score_record_def Let_def)

lemma sc_recency_eq: "sc_recency (score_record s qv now r) = recency_at (now - rtime r)"
  by (simp add: score_record_def Let_def recency_at_def elapsed_hours_def)


lemma retrieve_eq:
  "retrieve s q now k types =
     take k (sort_scored (map (score_record s (tfidf s (count_tokens (tokenize q))) now)
                              (filter (passes types) (records s))))"
  by (simp add: retrieve_def Let_def js_slice_def js_index_def min_def push_loop)


lemma mset_sort_scored: "mset (sort_scored xs) = mset xs"
  by (simp add: sort_scored_def)


section \<open>Retrieval returns the best k eligible records\<close>



section \<open>A tick without a decision\<close>

lemma moveTowardsDest_frame:
  "a_memory (moveTowardsDest a) = a_memory a"
  "a_energy (moveTowardsDest a) = a_energy a"
  "importanceSinceReflection (moveTowardsDest a) = importanceSinceReflection a"
  by (simp_all add: moveTowardsDest_def Let_def split: option.splits)

text \<open>
  Claim C2, as the code has it. When the gateway returns \<^verbatim>\<open>null\<close> for the action decision,
  \<^verbatim>\<open>step\<close> records the generic thought, sets the action to \<open>idle\<close> and returns at once. No
  memory is appended, and nothing that follows in a tick with a decision is done either:
  the energy and the reflection accumulator are as before, the world and the id counter
  are untouched, and the only request sent to the gateway is the decision request, so no
  reflection is attempted.
\<close>

theorem step_no_decision:
  "lastThought (s_agent (step st allAgents now mode None ratings rresp)) = unsure_thought
   \<and> currentAction (s_agent (step st allAgents now mode None ratings rresp)) = ''idle''
   \<and> a_memory (s_agent (step st allAgents now mode None ratings rresp)) = a_memory (s_agent st)
   \<and> a_energy (s_agent (step st allAgents now mode None ratings rresp)) = a_energy (s_agent st)
   \<and> importanceSinceReflection (s_agent (step st allAgents now mode None ratings rresp))
       = importanceSinceReflection (s_agent st)
   \<and> s_world (step st allAgents now mode None ratings rresp) = s_world st
   \<and> s_idCounter (step st allAgents now mode None ratings rresp) = s_idCounter st
   \<and> s_calls (step st allAgents now mode None ratings rresp) = s_calls st @ [DecisionCall]"
  by (simp add: step_def Let_def moveTowardsDest_frame)

text \<open>
  Claim C2 as stated has the energy decrement still run in such a tick. It does not: the
  agent of the example starts the tick with energy 100 and ends it with 100, not 99.
\<close>

theorem null_decision_keeps_energy:
  "a_energy (s_agent (step ex_sim [ex_agent] 0 ''fast'' None no_ratings None))
     \<noteq> clamp (a_energy (s_agent ex_sim) - 1) 0 100"
  by (simp add: step_def Let_def ex_sim_def ex_agent_def clamp_def)

section \<open>Perception\<close>

lemma placeAt_origin: "placeAt 0 0 = None"
  by (simp add: placeAt_def nearestPlace_def places_def dist2d_def sqrt_less_numeral sqrt_le_numeral)

lemma placeAt_1_0: "placeAt 1 0 = None"
  by (simp add: placeAt_def nearestPlace_def places_def dist2d_def sqrt_less_numeral sqrt_le_numeral)

lemma placeAt_hobbs: "placeAt 10 10 = Some (places ! 0)"
  by (simp add: placeAt_def nearestPlace_def places_def dist2d_def sqrt_less_numeral sqrt_le_numeral)

lemma placeAt_hobbs2: "placeAt 11 10 = Some (places ! 0)"
  by (simp add: placeAt_def nearestPlace_def places_def dist2d_def sqrt_less_numeral sqrt_le_numeral)

lemma nearest_loop_mem:
  "fst (foldl (\<lambda>(best, bestD) p.
              (let d = dist2d x y (px p) (py p)
               in if d < bestD then (Some p, d) else (best, bestD))) (b, bd) ps) = Some q
   \<Longrightarrow> b = Some q \<or> q \<in> set ps"
proof (induction ps arbitrary: b bd)
  case Nil
  then show ?case by simp
next
  case (Cons p ps)
  then show ?case by (fastforce simp: Let_def split: if_splits)
qed

lemma placeAt_mem: "placeAt x y = Some p \<Longrightarrow> p \<in> set places"
proof -
  assume h: "placeAt x y = Some p"
  obtain b d where bd: "nearestPlace x y = (b, d)" by (cases "nearestPlace x y")
  with h have "b = Some p" by (auto simp: placeAt_def split: option.splits if_splits)
  with bd have "fst (nearestPlace x y) = Some p" by simp
  then show ?thesis unfolding nearestPlace_def using nearest_loop_mem by fastforce
qed

lemma places_ids_truthy: "p \<in> set places \<Longrightarrow> truthy (pid p)"
  by (auto simp: places_def truthy_def)

lemma others_loop2:
  "foldl (\<lambda>others a. if skip a then others
                       else if same a then others @ [entry a] else others)
         acc xs
   = acc @ map entry (filter (\<lambda>a. \<not> skip a \<and> same a) xs)"
  by (induction xs arbitrary: acc) auto

lemma same_place_iff:
  "(case pl of None \<Rightarrow> False
    | Some p \<Rightarrow> (case pl' of None \<Rightarrow> False | Some q \<Rightarrow> pid q = pid p))
   = (\<exists>p q. pl = Some p \<and> pl' = Some q \<and> pid q = pid p)"
  by (auto split: option.splits)

lemma p_others_eq:
  "p_others (perceive w agent allAgents) =
     map (\<lambda>a. \<lparr>o_id = a_id a, o_name = a_name a,
                o_action = (if truthy (currentAction a) then currentAction a else ''idle'')\<rparr>)
         (filter (\<lambda>a. a_id a \<noteq> a_id agent
                       \<and> (\<exists>p q. placeAt (a_x agent) (a_y agent) = Some p
                                \<and> placeAt (a_x a) (a_y a) = Some q \<and> pid q = pid p))
                 allAgents)"
  unfolding perceive_def Let_def
  by (simp only: perception.simps others_loop2 [where acc = "[]"] same_place_iff append_Nil)

lemma p_chat_eq:
  "p_chat (perceive w agent allAgents) =
     (case placeAt (a_x agent) (a_y agent) of
        None \<Rightarrow> []
      | Some p \<Rightarrow> js_slice_from (- 6) (case chatByPlace w (pid p) of None \<Rightarrow> [] | Some arr \<Rightarrow> arr))"
  by (auto simp: perceive_def Let_def dest: placeAt_mem places_ids_truthy split: option.splits)

lemma js_slice_from_6: "js_slice_from (- 6) xs = drop (length xs - 6) xs"
  using js_slice_from_last [of 6 xs] by simp

text \<open>
  Claim C3, as the code has it. The list of nearby others never holds an entry with the
  id of the perceiving agent. It is the list of the entries of those agents of
  \<open>allAgents\<close>, in order, that have another id and for which the perceiving agent is at a
  place and the other agent is at a place with the same id; where the ids of \<open>allAgents\<close>
  are distinct, an agent's id is in the list iff that holds of the agent. An agent at no
  place perceives no other agent and no chat. At a place the chat is the last 6 entries of
  the log of that place (the whole log when it is shorter); it never has more than 6
  entries.
\<close>

theorem perceive_nearby:
  "(\<forall>ot \<in> set (p_others (perceive w agent allAgents)). o_id ot \<noteq> a_id agent)
   \<and> p_others (perceive w agent allAgents) =
       map (\<lambda>a. \<lparr>o_id = a_id a, o_name = a_name a,
                  o_action = (if truthy (currentAction a) then currentAction a else ''idle'')\<rparr>)
           (filter (\<lambda>a. a_id a \<noteq> a_id agent
                         \<and> (\<exists>p q. placeAt (a_x agent) (a_y agent) = Some p
                                  \<and> placeAt (a_x a) (a_y a) = Some q \<and> pid q = pid p))
                   allAgents)
   \<and> (distinct (map a_id allAgents) \<longrightarrow>
        (\<forall>a \<in> set allAgents.
           (a_id a \<in> o_id ` set (p_others (perceive w agent allAgents)))
           = (a_id a \<noteq> a_id agent
              \<and> (\<exists>p q. placeAt (a_x agent) (a_y agent) = Some p
                       \<and> placeAt (a_x a) (a_y a) = Some q \<and> pid q = pid p))))
   \<and> (placeAt (a_x agent) (a_y agent) = None \<longrightarrow>
        p_others (perceive w agent allAgents) = [] \<and> p_chat (perceive w agent allAgents) = [])
   \<and> (\<forall>p. placeAt (a_x agent) (a_y agent) = Some p \<longrightarrow>
        p_chat (perceive w agent allAgents) =
          (case chatByPlace w (pid p) of None \<Rightarrow> [] | Some arr \<Rightarrow> drop (length arr - 6) arr))
   \<and> length (p_chat (perceive w agent allAgents)) \<le> 6"
proof -
  let ?near = "\<lambda>a. a_id a \<noteq> a_id agent
                         \<and> (\<exists>p q. placeAt (a_x agent) (a_y agent) = Some p
                                  \<and> placeAt (a_x a) (a_y a) = Some q \<and> pid q = pid p)"
  have c1: "\<forall>ot \<in> set (p_others (perceive w agent allAgents)). o_id ot \<noteq> a_id agent"
    by (auto simp: p_others_eq)
  have c3: "distinct (map a_id allAgents) \<longrightarrow>
        (\<forall>a \<in> set allAgents.
           (a_id a \<in> o_id ` set (p_others (perceive w agent allAgents))) = ?near a)"
  proof (intro impI ballI)
    fix a
    assume d: "distinct (map a_id allAgents)" and a: "a \<in> set allAgents"
    have inj: "\<And>b. b \<in> set allAgents \<Longrightarrow> a_id b = a_id a \<Longrightarrow> b = a"
      using d a by (meson distinct_map inj_onD)
    have "(a_id a \<in> o_id ` set (p_others (perceive w agent allAgents)))
          = (\<exists>b \<in> set allAgents. ?near b \<and> a_id b = a_id a)"
      by (auto simp: p_others_eq image_iff)
    also have "\<dots> = ?near a" using inj a by blast
    finally show "(a_id a \<in> o_id ` set (p_others (perceive w agent allAgents))) = ?near a" .
  qed
  have c4: "placeAt (a_x agent) (a_y agent) = None \<longrightarrow>
        p_others (perceive w agent allAgents) = [] \<and> p_chat (perceive w agent allAgents) = []"
    by (simp add: p_others_eq p_chat_eq)
  have c5: "\<forall>p. placeAt (a_x agent) (a_y agent) = Some p \<longrightarrow>
        p_chat (perceive w agent allAgents) =
          (case chatByPlace w (pid p) of None \<Rightarrow> [] | Some arr \<Rightarrow> drop (length arr - 6) arr)"
    by (simp add: p_chat_eq js_slice_from_6 split: option.splits)
  have c6: "length (p_chat (perceive w agent allAgents)) \<le> 6"
    by (auto simp: p_chat_eq js_slice_from_6 split: option.splits)
  show ?thesis using c1 p_others_eq c3 c4 c5 c6 by blast
qed

lemma ex_world_chat_hobbs:
  "chatByPlace ex_world_chat ''hobbs'' = Some [\<lparr>c_speaker = ''B'', c_text = ''Good morning'', c_time = 0\<rparr>]"
  by (simp add: ex_world_chat_def postChat_def new_World_def places_def truthy_def)

text \<open>
  Three agents, two at Hobbs Cafe and one in the street, after one message was posted at
  the cafe: the agent at the cafe perceives the other one there and the message, the agent
  in the street perceives nobody and nothing.
\<close>

theorem perceive_nearby_witness:
  "map o_id (p_others (perceive ex_world_chat ex_agent [ex_agent, ex_cafe_b, ex_street_a])) = [''b'']
   \<and> p_others (perceive ex_world_chat ex_street_a [ex_agent, ex_cafe_b, ex_street_a]) = []
   \<and> p_chat (perceive ex_world_chat ex_street_a [ex_agent, ex_cafe_b, ex_street_a]) = []
   \<and> map c_text (p_chat (perceive ex_world_chat ex_agent [ex_agent, ex_cafe_b, ex_street_a])) = [''Good morning'']"
proof -
  have h: "placeAt (a_x ex_agent) (a_y ex_agent) = Some (places ! 0)"
          "placeAt (a_x ex_cafe_b) (a_y ex_cafe_b) = Some (places ! 0)"
          "placeAt (a_x ex_street_a) (a_y ex_street_a) = None"
    by (simp_all add: ex_agent_def ex_cafe_b_def ex_street_a_def placeAt_hobbs placeAt_hobbs2
        placeAt_origin)
  have i: "a_id ex_agent = ''isabella''" "a_id ex_cafe_b = ''b''" "a_id ex_street_a = ''a''"
    by (simp_all add: ex_agent_def ex_cafe_b_def ex_street_a_def)
  have p: "pid (places ! 0) = ''hobbs''" by (simp add: places_def)
  show ?thesis
    using perceive_nearby [of ex_world_chat ex_agent "[ex_agent, ex_cafe_b, ex_street_a]"]
          perceive_nearby [of ex_world_chat ex_street_a "[ex_agent, ex_cafe_b, ex_street_a]"]
    by (simp add: h i p ex_world_chat_hobbs)
qed

text \<open>
  Claim C3 as stated makes an agent nearby iff it resolves to the same place id as the
  perceiving agent. Two agents in the street resolve to the same place id, namely none
  (\<^verbatim>\<open>placeId\<close> is \<^verbatim>\<open>null\<close> for both), and yet neither is in the other's list: the guard
  \<^verbatim>\<open>place && ...\<close> of \<^verbatim>\<open>perceive\<close> excludes them.
\<close>

theorem street_agents_share_no_place:
  "p_placeId (perceive (new_World 32 32) ex_street_b [ex_street_a, ex_street_b])
     = p_placeId (perceive (new_World 32 32) ex_street_a [ex_street_a, ex_street_b])
   \<and> a_id ex_street_b \<noteq> a_id ex_street_a
   \<and> a_id ex_street_b \<notin> o_id ` set (p_others (perceive (new_World 32 32) ex_street_a [ex_street_a, ex_street_b]))"
proof -
  have h: "placeAt (a_x ex_street_a) (a_y ex_street_a) = None"
          "placeAt (a_x ex_street_b) (a_y ex_street_b) = None"
    by (simp_all add: ex_street_a_def ex_street_b_def placeAt_origin placeAt_1_0)
  have i: "a_id ex_street_b = ''b''" "a_id ex_street_a = ''a''"
    by (simp_all add: ex_street_a_def ex_street_b_def)
  show ?thesis
    by (simp add: perceive_def Let_def h i)
qed

section \<open>Movement\<close>

text \<open>
  A step of length \<open>m\<close> along the straight line to a point at distance \<open>D\<close>, in exact
  arithmetic: it is \<open>m\<close> long and leaves the distance \<open>D - m\<close>.
\<close>

lemma scaled_norm:
  fixes u v lam :: real
  assumes "0 \<le> lam"
  shows "sqrt ((u * lam) * (u * lam) + (v * lam) * (v * lam)) = lam * sqrt (u * u + v * v)"
proof -
  have "(u * lam) * (u * lam) + (v * lam) * (v * lam) = (lam * lam) * (u * u + v * v)"
    by (simp add: algebra_simps)
  then show ?thesis using assms by (simp add: real_sqrt_mult)
qed

lemma exact_step:
  fixes u v m D :: real
  assumes D: "D = sqrt (u * u + v * v)" and pos: "0 < D" and m: "0 \<le> m" "m \<le> D"
  shows "sqrt ((u / D * m) * (u / D * m) + (v / D * m) * (v / D * m)) = m"
    and "sqrt ((u - u / D * m) * (u - u / D * m) + (v - v / D * m) * (v - v / D * m)) = D - m"
proof -
  define lam where "lam = m / D"
  have lam: "0 \<le> lam" "0 \<le> 1 - lam" unfolding lam_def using pos m by simp_all
  have a: "u / D * m = u * lam" "v / D * m = v * lam" by (simp_all add: lam_def)
  have b: "u - u * lam = u * (1 - lam)" "v - v * lam = v * (1 - lam)" by (simp_all add: algebra_simps)
  have "sqrt ((u * lam) * (u * lam) + (v * lam) * (v * lam)) = lam * D"
    unfolding D using lam(1) by (rule scaled_norm)
  also have "\<dots> = m" unfolding lam_def using pos by simp
  finally show "sqrt ((u / D * m) * (u / D * m) + (v / D * m) * (v / D * m)) = m"
    unfolding a .
  have "sqrt ((u * (1 - lam)) * (u * (1 - lam)) + (v * (1 - lam)) * (v * (1 - lam))) = (1 - lam) * D"
    unfolding D using lam(2) by (rule scaled_norm)
  also have "\<dots> = D - m" unfolding lam_def using pos by (simp add: algebra_simps)
  finally show "sqrt ((u - u / D * m) * (u - u / D * m) + (v - v / D * m) * (v - v / D * m)) = D - m"
    unfolding a b .
qed

lemma abs_le_norm2: "\<bar>u\<bar> \<le> sqrt (u * u + v * v)"
proof -
  have "sqrt (u * u) \<le> sqrt (u * u + v * v)" by (rule real_sqrt_le_mono) simp
  then show ?thesis by (simp only: real_sqrt_abs2)
qed

lemma norm2_le_46:
  fixes u v :: real
  assumes "\<bar>u\<bar> \<le> 32" "\<bar>v\<bar> \<le> 32"
  shows "sqrt (u * u + v * v) \<le> 46"
proof (rule real_le_lsqrt)
  have "\<bar>u\<bar> * \<bar>u\<bar> \<le> 32 * 32" using assms(1) by (intro mult_mono) simp_all
  moreover have "\<bar>v\<bar> * \<bar>v\<bar> \<le> 32 * 32" using assms(2) by (intro mult_mono) simp_all
  ultimately show "u * u + v * v \<le> 46\<^sup>2" by (simp add: power2_eq_square)
qed simp

lemma sq_swap: "(a - b) * (a - b) = (b - a) * (b - a)" for a b :: real
  by (simp add: algebra_simps)

lemma clamp_near:
  fixes v X lo hi :: real
  shows "lo \<le> X \<Longrightarrow> X \<le> hi \<Longrightarrow> \<bar>clamp v lo hi - X\<bar> \<le> \<bar>v - X\<bar>"
  by (simp add: clamp_def max_def min_def)

lemma clamp_range: "lo \<le> hi \<Longrightarrow> lo \<le> clamp v lo hi \<and> clamp v lo hi \<le> hi"
  by (simp add: clamp_def)

lemma convex_step:
  fixes x tx lam :: real
  assumes "0 \<le> lam" "lam \<le> 1"
  shows "min x tx \<le> x + (tx - x) * lam \<and> x + (tx - x) * lam \<le> max x tx"
proof -
  have e: "x + (tx - x) * lam = (1 - lam) * x + lam * tx" by (simp add: algebra_simps)
  define lo where "lo = min x tx"
  define hi where "hi = max x tx"
  have b: "lo \<le> x" "lo \<le> tx" "x \<le> hi" "tx \<le> hi" by (simp_all add: lo_def hi_def)
  have "(1 - lam) * lo \<le> (1 - lam) * x" "lam * lo \<le> lam * tx"
       "(1 - lam) * x \<le> (1 - lam) * hi" "lam * tx \<le> lam * hi"
    using assms b by (simp_all add: mult_left_mono)
  moreover have "(1 - lam) * lo + lam * lo = lo" "(1 - lam) * hi + lam * hi = hi"
    by (simp_all add: algebra_simps)
  ultimately show ?thesis unfolding e lo_def [symmetric] hi_def [symmetric] by linarith
qed

text \<open>The doubles of the three literals of the movement: 31.9, 0.01 and 1.3.\<close>

lemma box_bound: "31 \<le> double_round (319 / 10)" "double_round (319 / 10) \<le> 32"
proof -
  have "double_round (real_of_int 31) \<le> double_round (319 / 10)" by (rule double_round_mono) simp
  then show "31 \<le> double_round (319 / 10)" using double_round_of_int [of 31] by simp
  have "double_round (319 / 10) \<le> double_round (real_of_int 32)" by (rule double_round_mono) simp
  then show "double_round (319 / 10) \<le> 32" using double_round_of_int [of 32] by simp
qed

lemma eps_bound: "\<bar>double_round (1 / 100) - 1 / 100\<bar> \<le> 1 / 2 ^ 46"
  by (rule dr_err) simp

lemma speed_bound: "\<bar>double_round (13 / 10) - 13 / 10\<bar> \<le> 1 / 2 ^ 46"
  by (rule dr_err) simp

lemma E_small: "(1::real) / 2 ^ 46 \<le> 1 / 10000000000000" "(3::real) / 2 ^ 46 \<le> 1 / 10000000000000"
  by simp_all

lemma in_boxD:
  assumes "in_box x y"
  shows "0 \<le> x" "x \<le> 32" "0 \<le> y" "y \<le> 32" "x \<le> double_round (319 / 10)"
        "y \<le> double_round (319 / 10)"
  using assms box_bound(2) by (simp_all add: in_box_def)

lemma move_snap:
  assumes "a_dest a = Some dst"
    "dist_double (a_x a) (a_y a) (d_x dst) (d_y dst) < double_round (1 / 100)"
  shows "moveTowardsDest a = a\<lparr>a_x := d_x dst, a_y := d_y dst, a_dest := None\<rparr>"
  using assms by (simp add: moveTowardsDest_def Let_def)

lemma move_advance:
  assumes "a_dest a = Some dst"
    "\<not> dist_double (a_x a) (a_y a) (d_x dst) (d_y dst) < double_round (1 / 100)"
  defines "d \<equiv> dist_double (a_x a) (a_y a) (d_x dst) (d_y dst)"
  shows "moveTowardsDest a =
           a\<lparr>a_x := clamp (double_round (a_x a + double_round
                         (double_round (double_round (d_x dst - a_x a) / d) * min (a_speed a) d)))
                       0 (double_round (319 / 10)),
             a_y := clamp (double_round (a_y a + double_round
                         (double_round (double_round (d_y dst - a_y a) / d) * min (a_speed a) d)))
                       0 (double_round (319 / 10))\<rparr>"
  using assms by (simp add: moveTowardsDest_def Let_def)

lemma speed_13: "1 / 1000 \<le> double_round (13 / 10)" "double_round (13 / 10) \<le> 14 / 10"
proof -
  have "\<bar>double_round (13 / 10) - 13 / 10\<bar> \<le> 1 / 10000000000000"
    using speed_bound E_small(1) by (rule order_trans)
  then show "1 / 1000 \<le> double_round (13 / 10)" "double_round (13 / 10) \<le> 14 / 10"
    by linarith+
qed

lemma in_box_int: "0 \<le> x \<Longrightarrow> x \<le> 31 \<Longrightarrow> 0 \<le> y \<Longrightarrow> y \<le> 31 \<Longrightarrow> in_box x y"
  using box_bound(1) by (simp add: in_box_def)

lemma sqrt_625: "sqrt 625 = 25"
  using real_sqrt_abs2 [of 25] by simp

text \<open>The distance that the code computes is within \<open>3 / 2^46\<close> of the distance.\<close>

lemma dist_double_err:
  assumes "in_box x y" "in_box tx ty"
  shows "\<bar>dist_double x y tx ty - dist2d x y tx ty\<bar> \<le> 3 / 2 ^ 46"
proof -
  note b = in_boxD [OF assms(1)] in_boxD [OF assms(2)]
  have "\<bar>x - tx\<bar> \<le> 32" "\<bar>y - ty\<bar> \<le> 32" using b by linarith+
  then show ?thesis unfolding dist_double_def dist2d_eq by (rule hypot_err)
qed

text \<open>
  The branch that walks: each coordinate that the code computes is within \<open>10^-9\<close> of the
  coordinate of the exact step, which lies between the old coordinate and the
  destination's.
\<close>

lemma move_walk:
  assumes dest: "a_dest a = Some dst"
    and box: "in_box (a_x a) (a_y a)" "in_box (d_x dst) (d_y dst)"
    and speed: "1 / 1000 \<le> a_speed a"
    and far: "\<not> dist_double (a_x a) (a_y a) (d_x dst) (d_y dst) < double_round (1 / 100)"
  defines "D \<equiv> dist2d (a_x a) (a_y a) (d_x dst) (d_y dst)"
  defines "m \<equiv> min (a_speed a) D"
  shows "a_dest (moveTowardsDest a) = Some dst"
    and "1 / 100 - 1 / 10 ^ 9 < D"
    and "\<bar>a_x (moveTowardsDest a) - (a_x a + (d_x dst - a_x a) / D * m)\<bar> \<le> 1 / 10 ^ 9"
    and "\<bar>a_y (moveTowardsDest a) - (a_y a + (d_y dst - a_y a) / D * m)\<bar> \<le> 1 / 10 ^ 9"
    and "in_box (a_x (moveTowardsDest a)) (a_y (moveTowardsDest a))"
    and "min (a_x a) (d_x dst) \<le> a_x a + (d_x dst - a_x a) / D * m"
    and "a_x a + (d_x dst - a_x a) / D * m \<le> max (a_x a) (d_x dst)"
    and "min (a_y a) (d_y dst) \<le> a_y a + (d_y dst - a_y a) / D * m"
    and "a_y a + (d_y dst - a_y a) / D * m \<le> max (a_y a) (d_y dst)"
proof -
  define d where "d = dist_double (a_x a) (a_y a) (d_x dst) (d_y dst)"
  define B where "B = double_round (319 / 10)"
  note bx = in_boxD [OF box(1)]
  note bt = in_boxD [OF box(2)]
  have hd: "\<bar>d - D\<bar> \<le> 3 / 2 ^ 46" unfolding d_def D_def using box by (rule dist_double_err)
  have hd': "\<bar>d - D\<bar> \<le> 1 / 10000000000000" using hd E_small(2) by (rule order_trans)
  have eb: "\<bar>double_round (1 / 100) - 1 / 100\<bar> \<le> 1 / 10000000000000"
    using eps_bound E_small(1) by (rule order_trans)
  have dge: "double_round (1 / 100) \<le> d" using far by (simp add: d_def)
  have d128: "1 / 128 \<le> d" using dge eb by linarith
  show Dfar: "1 / 100 - 1 / 10 ^ 9 < D"
  proof -
    have "1 / 100 - 1 / 1000000000 < D" using dge eb hd' by linarith
    then show ?thesis by simp
  qed
  have Dpos: "0 < D" using d128 hd' by linarith
  have s0: "0 \<le> a_speed a" using speed by linarith
  have m: "0 \<le> m" "m \<le> D" unfolding m_def using s0 Dpos by simp_all
  have Dalt: "D = sqrt ((d_x dst - a_x a) * (d_x dst - a_x a) + (d_y dst - a_y a) * (d_y dst - a_y a))"
    unfolding D_def dist2d_eq
    using sq_swap [of "a_x a" "d_x dst"] sq_swap [of "a_y a" "d_y dst"] by simp
  have ux: "\<bar>d_x dst - a_x a\<bar> \<le> D" unfolding Dalt by (rule abs_le_norm2)
  have uy: "\<bar>d_y dst - a_y a\<bar> \<le> D"
    unfolding Dalt using abs_le_norm2 [of "d_y dst - a_y a" "d_x dst - a_x a"]
    by (simp add: add.commute)
  have D46: "D \<le> 46" unfolding Dalt using bx bt by (intro norm2_le_46) linarith+
  have m': "min (a_speed a) D = m" by (simp add: m_def)
  have cx: "\<bar>double_round (a_x a + double_round
               (double_round (double_round (d_x dst - a_x a) / d) * min (a_speed a) d))
            - (a_x a + (d_x dst - a_x a) / D * m)\<bar> \<le> 1 / 10 ^ 9"
    using coord_err [OF bx(1) bx(2) bt(1) bt(2) ux D46 hd d128 s0] unfolding m' .
  have cy: "\<bar>double_round (a_y a + double_round
               (double_round (double_round (d_y dst - a_y a) / d) * min (a_speed a) d))
            - (a_y a + (d_y dst - a_y a) / D * m)\<bar> \<le> 1 / 10 ^ 9"
    using coord_err [OF bx(3) bx(4) bt(3) bt(4) uy D46 hd d128 s0] unfolding m' .
  have lam: "0 \<le> m / D" "m / D \<le> 1" using m Dpos by simp_all
  have re: "\<And>u::real. u / D * m = u * (m / D)" by simp
  show ex: "min (a_x a) (d_x dst) \<le> a_x a + (d_x dst - a_x a) / D * m"
           "a_x a + (d_x dst - a_x a) / D * m \<le> max (a_x a) (d_x dst)"
    unfolding re using convex_step [OF lam, of "a_x a" "d_x dst"] by simp_all
  show ey: "min (a_y a) (d_y dst) \<le> a_y a + (d_y dst - a_y a) / D * m"
           "a_y a + (d_y dst - a_y a) / D * m \<le> max (a_y a) (d_y dst)"
    unfolding re using convex_step [OF lam, of "a_y a" "d_y dst"] by simp_all
  have Xr: "0 \<le> a_x a + (d_x dst - a_x a) / D * m" "a_x a + (d_x dst - a_x a) / D * m \<le> B"
    using ex bx bt unfolding B_def by linarith+
  have Yr: "0 \<le> a_y a + (d_y dst - a_y a) / D * m" "a_y a + (d_y dst - a_y a) / D * m \<le> B"
    using ey bx bt unfolding B_def by linarith+
  have mv: "moveTowardsDest a =
           a\<lparr>a_x := clamp (double_round (a_x a + double_round
                         (double_round (double_round (d_x dst - a_x a) / d) * min (a_speed a) d)))
                       0 B,
             a_y := clamp (double_round (a_y a + double_round
                         (double_round (double_round (d_y dst - a_y a) / d) * min (a_speed a) d)))
                       0 B\<rparr>"
    unfolding d_def B_def using dest far by (rule move_advance)
  show "a_dest (moveTowardsDest a) = Some dst" by (simp add: mv dest)
  have "\<bar>clamp (double_round (a_x a + double_round
               (double_round (double_round (d_x dst - a_x a) / d) * min (a_speed a) d))) 0 B
         - (a_x a + (d_x dst - a_x a) / D * m)\<bar>
        \<le> \<bar>double_round (a_x a + double_round
               (double_round (double_round (d_x dst - a_x a) / d) * min (a_speed a) d))
            - (a_x a + (d_x dst - a_x a) / D * m)\<bar>"
    using Xr by (rule clamp_near)
  then show "\<bar>a_x (moveTowardsDest a) - (a_x a + (d_x dst - a_x a) / D * m)\<bar> \<le> 1 / 10 ^ 9"
    using cx by (simp add: mv)
  have "\<bar>clamp (double_round (a_y a + double_round
               (double_round (double_round (d_y dst - a_y a) / d) * min (a_speed a) d))) 0 B
         - (a_y a + (d_y dst - a_y a) / D * m)\<bar>
        \<le> \<bar>double_round (a_y a + double_round
               (double_round (double_round (d_y dst - a_y a) / d) * min (a_speed a) d))
            - (a_y a + (d_y dst - a_y a) / D * m)\<bar>"
    using Yr by (rule clamp_near)
  then show "\<bar>a_y (moveTowardsDest a) - (a_y a + (d_y dst - a_y a) / D * m)\<bar> \<le> 1 / 10 ^ 9"
    using cy by (simp add: mv)
  have B0: "0 \<le> B" unfolding B_def using box_bound(1) by linarith
  show "in_box (a_x (moveTowardsDest a)) (a_y (moveTowardsDest a))"
    unfolding mv in_box_def B_def [symmetric] using clamp_range [OF B0] by simp
qed

lemma move_walk_dist:
  assumes dest: "a_dest a = Some dst"
    and box: "in_box (a_x a) (a_y a)" "in_box (d_x dst) (d_y dst)"
    and speed: "1 / 1000 \<le> a_speed a"
    and far: "\<not> dist_double (a_x a) (a_y a) (d_x dst) (d_y dst) < double_round (1 / 100)"
  defines "D \<equiv> dist2d (a_x a) (a_y a) (d_x dst) (d_y dst)"
  defines "m \<equiv> min (a_speed a) D"
  shows "\<bar>dist2d (a_x (moveTowardsDest a)) (a_y (moveTowardsDest a)) (a_x a) (a_y a) - m\<bar>
           \<le> 2 / 10 ^ 9"
    and "\<bar>dist2d (a_x (moveTowardsDest a)) (a_y (moveTowardsDest a)) (d_x dst) (d_y dst) - (D - m)\<bar>
           \<le> 2 / 10 ^ 9"
    and "dist2d (a_x (moveTowardsDest a)) (a_y (moveTowardsDest a)) (d_x dst) (d_y dst) < D"
proof -
  note w = move_walk [OF dest box speed far]
  define x' where "x' = a_x (moveTowardsDest a)"
  define y' where "y' = a_y (moveTowardsDest a)"
  define u where "u = d_x dst - a_x a"
  define v where "v = d_y dst - a_y a"
  define p where "p = u / D * m"
  define q where "q = v / D * m"
  have Dfar: "1 / 100 - 1 / 1000000000 < D" using w(2) unfolding D_def by simp
  have Dpos: "0 < D" using Dfar by linarith
  have s0: "0 \<le> a_speed a" using speed by linarith
  have m: "0 \<le> m" "m \<le> D" unfolding m_def using s0 Dpos by simp_all
  have mbig: "1 / 1000 \<le> m" unfolding m_def using speed Dfar by linarith
  have Dalt: "D = sqrt (u * u + v * v)"
    unfolding D_def dist2d_eq u_def v_def
    using sq_swap [of "a_x a" "d_x dst"] sq_swap [of "a_y a" "d_y dst"] by simp
  have ex: "\<bar>x' - (a_x a + p)\<bar> \<le> 1 / 1000000000"
    using w(3) unfolding x'_def p_def u_def D_def m_def by simp
  have ey: "\<bar>y' - (a_y a + q)\<bar> \<le> 1 / 1000000000"
    using w(4) unfolding y'_def q_def v_def D_def m_def by simp
  note st = exact_step [OF Dalt Dpos m]
  have n1: "sqrt (p * p + q * q) = m" using st(1) unfolding p_def q_def .
  have n2: "sqrt ((u - p) * (u - p) + (v - q) * (v - q)) = D - m" using st(2) unfolding p_def q_def .
  have "\<bar>sqrt ((x' - a_x a) * (x' - a_x a) + (y' - a_y a) * (y' - a_y a)) - sqrt (p * p + q * q)\<bar>
        \<le> \<bar>x' - a_x a - p\<bar> + \<bar>y' - a_y a - q\<bar>" by (rule norm2_diff)
  also have "\<dots> \<le> 2 / 1000000000" using ex ey by linarith
  finally have a: "\<bar>dist2d x' y' (a_x a) (a_y a) - m\<bar> \<le> 2 / 1000000000"
    unfolding n1 dist2d_eq .
  have sw: "dist2d x' y' (d_x dst) (d_y dst)
            = sqrt ((d_x dst - x') * (d_x dst - x') + (d_y dst - y') * (d_y dst - y'))"
    unfolding dist2d_eq using sq_swap [of x' "d_x dst"] sq_swap [of y' "d_y dst"] by simp
  have "\<bar>sqrt ((d_x dst - x') * (d_x dst - x') + (d_y dst - y') * (d_y dst - y'))
          - sqrt ((u - p) * (u - p) + (v - q) * (v - q))\<bar>
        \<le> \<bar>d_x dst - x' - (u - p)\<bar> + \<bar>d_y dst - y' - (v - q)\<bar>" by (rule norm2_diff)
  also have "\<dots> \<le> 2 / 1000000000" using ex ey unfolding u_def v_def by linarith
  finally have b: "\<bar>dist2d x' y' (d_x dst) (d_y dst) - (D - m)\<bar> \<le> 2 / 1000000000"
    unfolding n2 sw [symmetric] .
  show "\<bar>dist2d (a_x (moveTowardsDest a)) (a_y (moveTowardsDest a)) (a_x a) (a_y a) - m\<bar>
           \<le> 2 / 10 ^ 9"
    using a unfolding x'_def y'_def by simp
  show "\<bar>dist2d (a_x (moveTowardsDest a)) (a_y (moveTowardsDest a)) (d_x dst) (d_y dst) - (D - m)\<bar>
           \<le> 2 / 10 ^ 9"
    using b unfolding x'_def y'_def by simp
  show "dist2d (a_x (moveTowardsDest a)) (a_y (moveTowardsDest a)) (d_x dst) (d_y dst) < D"
    using b mbig unfolding x'_def y'_def by linarith
qed

lemma move_snap_near:
  assumes box: "in_box (a_x a) (a_y a)" "in_box (d_x dst) (d_y dst)"
    and near: "dist_double (a_x a) (a_y a) (d_x dst) (d_y dst) < double_round (1 / 100)"
  shows "dist2d (a_x a) (a_y a) (d_x dst) (d_y dst) < 1 / 100 + 1 / 10 ^ 9"
proof -
  have hd: "\<bar>dist_double (a_x a) (a_y a) (d_x dst) (d_y dst)
             - dist2d (a_x a) (a_y a) (d_x dst) (d_y dst)\<bar> \<le> 1 / 10000000000000"
    using dist_double_err [OF box] E_small(2) by (rule order_trans)
  have eb: "\<bar>double_round (1 / 100) - 1 / 100\<bar> \<le> 1 / 10000000000000"
    using eps_bound E_small(1) by (rule order_trans)
  have "dist2d (a_x a) (a_y a) (d_x dst) (d_y dst) < 1 / 100 + 1 / 1000000000"
    using hd eb near by linarith
  then show ?thesis by simp
qed

text \<open>
  Claim C4. The claim speaks of every agent with a destination. It holds, up to the
  rounding of doubles, of an agent that stands in the box \<open>[0, 31.9] \<times> [0, 31.9]\<close> of the
  clamp, heads for a destination in the box and has a speed of at least 0.001 (the
  constructor sets 1.3). For such an agent one call of \<^verbatim>\<open>_moveTowardsDest\<close> either snaps the
  position onto the destination and clears the destination, and then the distance was
  below \<open>0.01 + 10^-9\<close>, or keeps the destination, and then the distance was above
  \<open>0.01 - 10^-9\<close>. In the second case each new coordinate is within \<open>10^-9\<close> of the point
  that lies \<open>min speed d\<close> along the straight line to the destination, \<open>d\<close> being the distance
  before the call: the position moves by \<open>min speed d\<close> up to \<open>2 * 10^-9\<close>, so by at most the
  speed plus \<open>2 * 10^-9\<close>, and the distance to the destination becomes \<open>d - min speed d\<close> up to
  \<open>2 * 10^-9\<close>, which is strictly less than \<open>d\<close>. In both cases the distance to the
  destination does not grow, the position stays in the box, and each coordinate ends
  between its old value and the destination's up to \<open>10^-9\<close>. The distances of the statement
  are the Euclidean distances of the positions that the code computes in doubles.
\<close>

theorem move_towards_dest:
  assumes dest: "a_dest a = Some dst"
    and box: "in_box (a_x a) (a_y a)" "in_box (d_x dst) (d_y dst)"
    and speed: "1 / 1000 \<le> a_speed a"
  shows "((a_dest (moveTowardsDest a) = None
           \<and> a_x (moveTowardsDest a) = d_x dst \<and> a_y (moveTowardsDest a) = d_y dst
           \<and> dist2d (a_x a) (a_y a) (d_x dst) (d_y dst) < 1 / 100 + 1 / 10 ^ 9)
         \<or> (a_dest (moveTowardsDest a) = Some dst
           \<and> 1 / 100 - 1 / 10 ^ 9 < dist2d (a_x a) (a_y a) (d_x dst) (d_y dst)
           \<and> \<bar>a_x (moveTowardsDest a)
                - (a_x a + (d_x dst - a_x a) / dist2d (a_x a) (a_y a) (d_x dst) (d_y dst)
                           * min (a_speed a) (dist2d (a_x a) (a_y a) (d_x dst) (d_y dst)))\<bar>
               \<le> 1 / 10 ^ 9
           \<and> \<bar>a_y (moveTowardsDest a)
                - (a_y a + (d_y dst - a_y a) / dist2d (a_x a) (a_y a) (d_x dst) (d_y dst)
                           * min (a_speed a) (dist2d (a_x a) (a_y a) (d_x dst) (d_y dst)))\<bar>
               \<le> 1 / 10 ^ 9
           \<and> \<bar>dist2d (a_x (moveTowardsDest a)) (a_y (moveTowardsDest a)) (a_x a) (a_y a)
                - min (a_speed a) (dist2d (a_x a) (a_y a) (d_x dst) (d_y dst))\<bar> \<le> 2 / 10 ^ 9
           \<and> dist2d (a_x (moveTowardsDest a)) (a_y (moveTowardsDest a)) (a_x a) (a_y a)
               \<le> a_speed a + 2 / 10 ^ 9
           \<and> \<bar>dist2d (a_x (moveTowardsDest a)) (a_y (moveTowardsDest a)) (d_x dst) (d_y dst)
                - (dist2d (a_x a) (a_y a) (d_x dst) (d_y dst)
                   - min (a_speed a) (dist2d (a_x a) (a_y a) (d_x dst) (d_y dst)))\<bar> \<le> 2 / 10 ^ 9
           \<and> dist2d (a_x (moveTowardsDest a)) (a_y (moveTowardsDest a)) (d_x dst) (d_y dst)
               < dist2d (a_x a) (a_y a) (d_x dst) (d_y dst)))
       \<and> dist2d (a_x (moveTowardsDest a)) (a_y (moveTowardsDest a)) (d_x dst) (d_y dst)
           \<le> dist2d (a_x a) (a_y a) (d_x dst) (d_y dst)
       \<and> in_box (a_x (moveTowardsDest a)) (a_y (moveTowardsDest a))
       \<and> min (a_x a) (d_x dst) - 1 / 10 ^ 9 \<le> a_x (moveTowardsDest a)
       \<and> a_x (moveTowardsDest a) \<le> max (a_x a) (d_x dst) + 1 / 10 ^ 9
       \<and> min (a_y a) (d_y dst) - 1 / 10 ^ 9 \<le> a_y (moveTowardsDest a)
       \<and> a_y (moveTowardsDest a) \<le> max (a_y a) (d_y dst) + 1 / 10 ^ 9"
proof (cases "dist_double (a_x a) (a_y a) (d_x dst) (d_y dst) < double_round (1 / 100)")
  case True
  have mv: "moveTowardsDest a = a\<lparr>a_x := d_x dst, a_y := d_y dst, a_dest := None\<rparr>"
    using dest True by (rule move_snap)
  have near: "dist2d (a_x a) (a_y a) (d_x dst) (d_y dst) < 1 / 100 + 1 / 10 ^ 9"
    using box True by (rule move_snap_near)
  have z: "dist2d (d_x dst) (d_y dst) (d_x dst) (d_y dst) = 0" by (simp add: dist2d_eq)
  have f: "a_dest (moveTowardsDest a) = None" "a_x (moveTowardsDest a) = d_x dst"
          "a_y (moveTowardsDest a) = d_y dst"
    by (simp_all add: mv)
  have g: "dist2d (a_x (moveTowardsDest a)) (a_y (moveTowardsDest a)) (d_x dst) (d_y dst)
           \<le> dist2d (a_x a) (a_y a) (d_x dst) (d_y dst)"
    unfolding f z by (rule dist2d_nonneg)
  have h: "in_box (a_x (moveTowardsDest a)) (a_y (moveTowardsDest a))"
    unfolding f by (rule box(2))
  have b: "min (a_x a) (d_x dst) - 1 / 10 ^ 9 \<le> a_x (moveTowardsDest a)"
          "a_x (moveTowardsDest a) \<le> max (a_x a) (d_x dst) + 1 / 10 ^ 9"
          "min (a_y a) (d_y dst) - 1 / 10 ^ 9 \<le> a_y (moveTowardsDest a)"
          "a_y (moveTowardsDest a) \<le> max (a_y a) (d_y dst) + 1 / 10 ^ 9"
    unfolding f by simp_all
  show ?thesis using f near g h b by blast
next
  case False
  note w = move_walk [OF dest box speed False]
  note d = move_walk_dist [OF dest box speed False]
  have slow: "dist2d (a_x (moveTowardsDest a)) (a_y (moveTowardsDest a)) (a_x a) (a_y a)
               \<le> a_speed a + 2 / 10 ^ 9"
    using d(1) by linarith
  have g: "dist2d (a_x (moveTowardsDest a)) (a_y (moveTowardsDest a)) (d_x dst) (d_y dst)
           \<le> dist2d (a_x a) (a_y a) (d_x dst) (d_y dst)"
    using d(3) by linarith
  have b: "min (a_x a) (d_x dst) - 1 / 10 ^ 9 \<le> a_x (moveTowardsDest a)"
          "a_x (moveTowardsDest a) \<le> max (a_x a) (d_x dst) + 1 / 10 ^ 9"
          "min (a_y a) (d_y dst) - 1 / 10 ^ 9 \<le> a_y (moveTowardsDest a)"
          "a_y (moveTowardsDest a) \<le> max (a_y a) (d_y dst) + 1 / 10 ^ 9"
    using w(3,4,6,7,8,9) by linarith+
  show ?thesis using w(1,2,3,4,5) d slow g b by blast
qed

text \<open>
  An agent at Hobbs Cafe heading for Johnson Park moves by 1.3 up to \<open>3 * 10^-9\<close> and is
  1.3 nearer the park up to \<open>3 * 10^-9\<close>; an agent standing on its destination snaps to it
  and the destination is cleared.
\<close>

theorem move_towards_dest_witness:
  "a_dest (moveTowardsDest ex_walker) = Some ex_dest_park
   \<and> \<bar>dist2d (a_x (moveTowardsDest ex_walker)) (a_y (moveTowardsDest ex_walker)) 10 10 - 13 / 10\<bar>
       \<le> 3 / 10 ^ 9
   \<and> \<bar>dist2d (a_x (moveTowardsDest ex_walker)) (a_y (moveTowardsDest ex_walker)) 22 9
        - (dist2d 10 10 22 9 - 13 / 10)\<bar> \<le> 3 / 10 ^ 9
   \<and> dist2d (a_x (moveTowardsDest ex_walker)) (a_y (moveTowardsDest ex_walker)) 22 9
       < dist2d 10 10 22 9
   \<and> a_x (moveTowardsDest ex_arriving) = 22 \<and> a_y (moveTowardsDest ex_arriving) = 9
   \<and> a_dest (moveTowardsDest ex_arriving) = None"
proof -
  have w: "a_dest ex_walker = Some ex_dest_park" "a_x ex_walker = 10" "a_y ex_walker = 10"
          "a_speed ex_walker = double_round (13 / 10)"
    by (simp_all add: ex_walker_def ex_agent_def)
  have r: "a_dest ex_arriving = Some ex_dest_park" "a_x ex_arriving = 22" "a_y ex_arriving = 9"
          "a_speed ex_arriving = double_round (13 / 10)"
    by (simp_all add: ex_arriving_def ex_agent_def)
  have p: "d_x ex_dest_park = 22" "d_y ex_dest_park = 9" by (simp_all add: ex_dest_park_def)
  have bw: "in_box (a_x ex_walker) (a_y ex_walker)" "in_box (a_x ex_arriving) (a_y ex_arriving)"
           "in_box (d_x ex_dest_park) (d_y ex_dest_park)"
    unfolding w r p by (rule in_box_int; simp)+
  have sw: "1 / 1000 \<le> a_speed ex_walker" "1 / 1000 \<le> a_speed ex_arriving"
    unfolding w r by (rule speed_13(1))+
  have twelve: "12 \<le> sqrt 145" by (rule real_le_rsqrt) simp
  have eq: "dist2d 10 10 22 9 = sqrt 145" by (simp add: dist2d_eq)
  have far: "\<not> dist2d 10 10 22 9 < 1 / 100 + 1 / 10 ^ 9" unfolding eq using twelve by simp
  have mn: "min (double_round (13 / 10)) (dist2d 10 10 22 9) = double_round (13 / 10)"
    unfolding eq using twelve speed_13(2) by linarith
  have zero: "dist2d 22 9 22 9 = 0" by (simp add: dist2d_eq)
  have near: "\<not> 1 / 100 - 1 / 10 ^ 9 < dist2d 22 9 22 9" unfolding zero by simp
  have sb: "\<bar>double_round (13 / 10) - 13 / 10\<bar> \<le> 1 / 1000000000"
    using speed_bound by simp
  note t = move_towards_dest [OF w(1) bw(1) bw(3) sw(1), unfolded w p mn]
  note u = move_towards_dest [OF r(1) bw(2) bw(3) sw(2), unfolded r p]
  have g: "a_dest (moveTowardsDest ex_walker) = Some ex_dest_park
     \<and> \<bar>dist2d (a_x (moveTowardsDest ex_walker)) (a_y (moveTowardsDest ex_walker)) 10 10
          - double_round (13 / 10)\<bar> \<le> 2 / 10 ^ 9
     \<and> \<bar>dist2d (a_x (moveTowardsDest ex_walker)) (a_y (moveTowardsDest ex_walker)) 22 9
          - (dist2d 10 10 22 9 - double_round (13 / 10))\<bar> \<le> 2 / 10 ^ 9
     \<and> dist2d (a_x (moveTowardsDest ex_walker)) (a_y (moveTowardsDest ex_walker)) 22 9
         < dist2d 10 10 22 9"
    using t far by blast
  have h: "a_x (moveTowardsDest ex_arriving) = 22 \<and> a_y (moveTowardsDest ex_arriving) = 9
     \<and> a_dest (moveTowardsDest ex_arriving) = None"
    using u near by blast
  have ga: "\<bar>dist2d (a_x (moveTowardsDest ex_walker)) (a_y (moveTowardsDest ex_walker)) 10 10
          - double_round (13 / 10)\<bar> \<le> 2 / 1000000000"
    using g by simp
  have gb: "\<bar>dist2d (a_x (moveTowardsDest ex_walker)) (a_y (moveTowardsDest ex_walker)) 22 9
          - (dist2d 10 10 22 9 - double_round (13 / 10))\<bar> \<le> 2 / 1000000000"
    using g by simp
  have "\<bar>dist2d (a_x (moveTowardsDest ex_walker)) (a_y (moveTowardsDest ex_walker)) 10 10 - 13 / 10\<bar>
       \<le> 3 / 1000000000"
    using ga sb by linarith
  then have g1: "\<bar>dist2d (a_x (moveTowardsDest ex_walker)) (a_y (moveTowardsDest ex_walker)) 10 10 - 13 / 10\<bar>
       \<le> 3 / 10 ^ 9"
    by simp
  have "\<bar>dist2d (a_x (moveTowardsDest ex_walker)) (a_y (moveTowardsDest ex_walker)) 22 9
        - (dist2d 10 10 22 9 - 13 / 10)\<bar> \<le> 3 / 1000000000"
    using gb sb by linarith
  then have g2: "\<bar>dist2d (a_x (moveTowardsDest ex_walker)) (a_y (moveTowardsDest ex_walker)) 22 9
        - (dist2d 10 10 22 9 - 13 / 10)\<bar> \<le> 3 / 10 ^ 9"
    by simp
  show ?thesis using g g1 g2 h by blast
qed

text \<open>
  Outside the box the claim fails. The constructor takes any \<^verbatim>\<open>startX\<close>: an agent placed at
  (35, 10) that heads for Hobbs Cafe at (10, 10) is moved to about x = 33.7 and then
  clamped to x = 31.9, which is at least 3 away from where it stood, more than its speed
  of 1.3.
\<close>

theorem outside_box_moves_too_far:
  "a_dest ex_outside = Some ex_dest_hobbs
   \<and> a_x ex_outside = 35 \<and> a_y ex_outside = 10
   \<and> a_speed ex_outside \<le> 14 / 10
   \<and> a_x (moveTowardsDest ex_outside) = double_round (319 / 10)
   \<and> a_y (moveTowardsDest ex_outside) = 10
   \<and> double_round (319 / 10) \<le> 32
   \<and> 3 \<le> dist2d (a_x (moveTowardsDest ex_outside)) (a_y (moveTowardsDest ex_outside))
              (a_x ex_outside) (a_y ex_outside)
   \<and> \<not> dist2d (a_x (moveTowardsDest ex_outside)) (a_y (moveTowardsDest ex_outside))
               (a_x ex_outside) (a_y ex_outside) \<le> a_speed ex_outside + 2 / 10 ^ 9"
proof -
  define s where "s = double_round (13 / 10)"
  define B where "B = double_round (319 / 10)"
  have f: "a_x ex_outside = 35" "a_y ex_outside = 10" "a_speed ex_outside = s"
          "a_dest ex_outside = Some ex_dest_hobbs"
    by (simp_all add: ex_outside_def new_Agent_def s_def)
  have h: "d_x ex_dest_hobbs = 10" "d_y ex_dest_hobbs = 10" by (simp_all add: ex_dest_hobbs_def)
  have sb: "1 / 1000 \<le> s" "s \<le> 14 / 10" unfolding s_def by (rule speed_13)+
  have Bb: "31 \<le> B" "B \<le> 32" unfolding B_def by (rule box_bound)+
  have r25: "double_round 25 = 25" using double_round_of_int [of 25] by simp
  have r10: "double_round 10 = 10" using double_round_of_int [of 10] by simp
  have r33: "double_round 33 = 33" using double_round_of_int [of 33] by simp
  have r0: "double_round 0 = 0" by (simp add: double_round_def)
  have rm1: "double_round (- 1) = - 1" using double_round_minus [of 1] double_round_one by simp
  have rm25: "double_round (- 25) = - 25" using double_round_minus [of 25] r25 by simp
  have d: "dist_double 35 10 10 10 = 25"
    by (simp add: dist_double_def Math_hypot_def r25 r0 sqrt_625)
  have eb: "\<bar>double_round (1 / 100) - 1 / 100\<bar> \<le> 1 / 10000000000000"
    using eps_bound E_small(1) by (rule order_trans)
  have far: "\<not> dist_double (a_x ex_outside) (a_y ex_outside) (d_x ex_dest_hobbs) (d_y ex_dest_hobbs)
               < double_round (1 / 100)"
    unfolding f h d using eb by linarith
  have mn: "min s 25 = s" using sb by linarith
  have "\<bar>double_round (- s) - (- s)\<bar> \<le> 1 / 2 ^ 46" using sb by (intro dr_err) simp
  then have "\<bar>double_round (- s) - (- s)\<bar> \<le> 1 / 10000000000000"
    using E_small(1) by (rule order_trans)
  then have "33 \<le> 35 + double_round (- s)" using sb by linarith
  then have "double_round 33 \<le> double_round (35 + double_round (- s))" by (rule double_round_mono)
  then have x1: "B \<le> double_round (35 + double_round (- s))" using r33 Bb by linarith
  have cx: "clamp (double_round (35 + double_round (- s))) 0 B = B"
    using x1 Bb by (simp add: clamp_def)
  have cy: "clamp (10::real) 0 B = 10" using Bb by (simp add: clamp_def)
  have mv: "moveTowardsDest ex_outside = ex_outside\<lparr>a_x := B, a_y := 10\<rparr>"
    using move_advance [OF f(4) far]
    by (simp add: f h d mn rm25 rm1 r0 r10 cx cy B_def [symmetric])
  have e: "dist2d B 10 35 10 = 35 - B"
    using real_sqrt_abs2 [of "B - 35"] Bb by (simp add: dist2d_eq)
  have g: "a_x (moveTowardsDest ex_outside) = B" "a_y (moveTowardsDest ex_outside) = 10"
    by (simp_all add: mv)
  have far2: "3 \<le> dist2d B 10 35 10" unfolding e using Bb by linarith
  have n: "\<not> dist2d B 10 35 10 \<le> s + 2 / 10 ^ 9" using far2 sb by simp
  show ?thesis unfolding g f B_def [symmetric] using sb Bb far2 n by simp
qed

text \<open>
  The agents of a run are walkable. \<^verbatim>\<open>makeAgents\<close> constructs every agent at \<open>placeXY\<close> of a
  name; \<^verbatim>\<open>step\<close> sets a destination only to a place, and \<^verbatim>\<open>seedInitialMemories\<close> and
  \<^verbatim>\<open>maybeReflect\<close> touch neither the position, the destination nor the speed.
\<close>

lemma places_in_box: "p \<in> set places \<Longrightarrow> in_box (px p) (py p)"
  by (auto simp: places_def intro!: in_box_int)

lemma placeXY_in_box: "in_box (fst (placeXY name)) (snd (placeXY name))"
proof (cases "find (\<lambda>p. pname p = name) places")
  case None
  then show ?thesis by (simp add: placeXY_def in_box_int)
next
  case (Some p)
  then have "p \<in> set places" by (auto simp: find_Some_iff)
  then show ?thesis using places_in_box [of p] Some by (simp add: placeXY_def)
qed

lemma walkable_new_Agent:
  "walkable (new_Agent i name age title traits bio goals home (fst (placeXY start))
               (snd (placeXY start)) persona seedMemory)"
  using placeXY_in_box [of start] speed_13(1) by (simp add: walkable_def new_Agent_def)

lemma move_speed: "a_speed (moveTowardsDest a) = a_speed a"
  by (simp add: moveTowardsDest_def Let_def split: option.splits)

lemma walkable_move:
  assumes "walkable a"
  shows "walkable (moveTowardsDest a)"
proof (cases "a_dest a")
  case None
  then show ?thesis using assms by (simp add: moveTowardsDest_def)
next
  case (Some dst)
  have bx: "in_box (a_x a) (a_y a)" and db: "in_box (d_x dst) (d_y dst)"
    and sp: "1 / 1000 \<le> a_speed a"
    using assms Some by (simp_all add: walkable_def)
  show ?thesis
  proof (cases "dist_double (a_x a) (a_y a) (d_x dst) (d_y dst) < double_round (1 / 100)")
    case True
    show ?thesis using db sp by (simp add: move_snap [OF Some True] walkable_def)
  next
    case False
    note w = move_walk [OF Some bx db sp False]
    show ?thesis using w(1) w(5) db sp by (simp add: walkable_def move_speed)
  qed
qed

lemma walkable_same_motion: "same_motion a b \<Longrightarrow> walkable b \<Longrightarrow> walkable a"
  by (simp add: same_motion_def walkable_def)

lemma store_memories_motion:
  "same_motion (s_agent (store_memories st now mode ratings ms)) (s_agent st)"
  unfolding store_memories_def
proof (rule foldl_inv [where P = "\<lambda>s. same_motion (s_agent s) (s_agent st)"])
  show "same_motion (s_agent st) (s_agent st)" by (simp add: same_motion_def)
next
  fix s :: sim and x :: "nat \<times> mem_item"
  assume h: "same_motion (s_agent s) (s_agent st)"
  obtain i m where x: "x = (i, m)" by (cases x)
  show "same_motion (s_agent (case x of (i, m) \<Rightarrow>
              (let txt = js_slice 0 280 (m_text m);
                   ty = (if m_type m = ''action'' then ''action'' else ''observation'');
                   imp0 = proposed_importance (m_importance m);
                   (imp, calls) =
                     (if mode = ''paper''
                      then (rateImportancePaperStyle (ratings i), s_calls s @ [RatingCall txt])
                      else (imp0, s_calls s));
                   (rid, c) = nextId ''mem'' (s_idCounter s);
                   a = s_agent s
               in s\<lparr>s_agent := a\<lparr>a_memory := add (a_memory a) (new_MemoryRecord rid now txt imp ty),
                                    importanceSinceReflection := importanceSinceReflection a + imp\<rparr>,
                      s_idCounter := c, s_calls := calls\<rparr>))) (s_agent st)"
    using h by (auto simp: x Let_def nextId_def same_motion_def)
qed

lemma maybeReflect_motion: "same_motion (s_agent (maybeReflect st now resp)) (s_agent st)"
  by (auto simp: maybeReflect_def Let_def same_motion_def split: option.splits prod.splits)

lemma seed_motion: "same_motion (s_agent (seedInitialMemories st now)) (s_agent st)"
  by (simp add: seedInitialMemories_def Let_def same_motion_def split: prod.splits)

lemma place_choice_in_box:
  "in_box (px (case find P places of None \<Rightarrow> places ! 0 | Some p \<Rightarrow> p))
          (py (case find P places of None \<Rightarrow> places ! 0 | Some p \<Rightarrow> p))"
proof -
  have "(case find P places of None \<Rightarrow> places ! 0 | Some p \<Rightarrow> p) \<in> set places"
    by (auto simp: find_Some_iff places_def split: option.splits)
  then show ?thesis by (rule places_in_box)
qed

lemma execute_action_walkable:
  "walkable (s_agent st) \<Longrightarrow> walkable (s_agent (execute_action st now perc obj))"
  using place_choice_in_box
  by (simp add: execute_action_def Let_def walkable_def)

lemma step_walkable:
  assumes "walkable (s_agent st)"
  shows "walkable (s_agent (step st allAgents now mode resp ratings rresp))"
proof -
  define a1 where "a1 = (if a_dest (s_agent st) \<noteq> None
                          then (moveTowardsDest (s_agent st))\<lparr>currentAction := ''walking''\<rparr>
                          else s_agent st)"
  have w1: "walkable a1"
    using assms walkable_move [OF assms] by (simp add: a1_def walkable_def)
  show ?thesis
  proof (cases resp)
    case None
    then show ?thesis using w1 by (simp add: step_def Let_def a1_def walkable_def)
  next
    case (Some obj)
    define st1 where "st1 = st\<lparr>s_agent := a1, s_calls := s_calls st @ [DecisionCall]\<rparr>"
    define st2 where "st2 = st1\<lparr>s_agent := a1\<lparr>lastThought := d_thought obj\<rparr>\<rparr>"
    define st3 where "st3 = (case d_memories obj of None \<Rightarrow> st2
                             | Some ms \<Rightarrow> store_memories st2 now mode ratings ms)"
    define st4 where "st4 = execute_action st3 now (perceive (s_world st) a1 allAgents) obj"
    define st5 where "st5 = st4\<lparr>s_agent := (s_agent st4)\<lparr>a_energy := clamp (a_energy (s_agent st4) - 1) 0 100\<rparr>\<rparr>"
    have eq: "step st allAgents now mode resp ratings rresp = maybeReflect st5 now rresp"
      by (simp only: step_def Let_def Some option.case st5_def st4_def st3_def st2_def st1_def a1_def)
    have "walkable (s_agent st2)" using w1 by (simp add: st2_def walkable_def)
    then have "walkable (s_agent st3)"
    proof (cases "d_memories obj")
      case None
      assume "walkable (s_agent st2)"
      then show ?thesis by (simp add: st3_def None)
    next
      case (Some ms)
      assume w2: "walkable (s_agent st2)"
      have "walkable (s_agent (store_memories st2 now mode ratings ms))"
        using store_memories_motion w2 by (rule walkable_same_motion)
      then show ?thesis by (simp add: st3_def Some)
    qed
    then have "walkable (s_agent st4)" unfolding st4_def by (rule execute_action_walkable)
    then have "walkable (s_agent st5)" by (simp add: st5_def walkable_def)
    then show ?thesis unfolding eq using maybeReflect_motion walkable_same_motion by blast
  qed
qed

section \<open>Reflection\<close>

lemma maybeReflect_below: 
  "importanceSinceReflection (s_agent st) < 26 \<Longrightarrow> maybeReflect st now resp = st"
  by (simp add: maybeReflect_def)

lemma maybeReflect_reset:
  "26 \<le> importanceSinceReflection (s_agent st) \<Longrightarrow>
   importanceSinceReflection (s_agent (maybeReflect st now resp)) = 0"
  by (simp add: maybeReflect_def Let_def split: option.splits prod.splits)

lemma maybeReflect_calls:
  "26 \<le> importanceSinceReflection (s_agent st) \<Longrightarrow>
   s_calls (maybeReflect st now resp) =
     s_calls st @ [ReflectionCall (map (\<lambda>r. (rtext r, importance r, rtype r))
                                     (recent (a_memory (s_agent st)) 12))]"
  by (simp add: maybeReflect_def Let_def split: option.splits prod.splits)

lemma maybeReflect_no_insights:
  "resp = None \<or> (\<exists>obj. resp = Some obj \<and> (r_insights obj = None \<or> r_insights obj = Some [])) \<Longrightarrow>
   a_memory (s_agent (maybeReflect st now resp)) = a_memory (s_agent st)
   \<and> s_world (maybeReflect st now resp) = s_world st
   \<and> s_idCounter (maybeReflect st now resp) = s_idCounter st"
  by (auto simp: maybeReflect_def Let_def split: option.splits prod.splits)

text \<open>
  Claim C5. With an accumulator below 26, \<^verbatim>\<open>maybeReflect\<close> changes nothing: no request is
  sent and the accumulator is not reset. With an accumulator of at least 26, one
  reflection request is sent and the accumulator is 0 afterwards, whatever the gateway
  returns. When the answer is missing (\<^verbatim>\<open>null\<close>) or has no insights, the memory stream is
  as before.
\<close>

theorem reflection_threshold_and_reset:
  "(importanceSinceReflection (s_agent st) < 26 \<longrightarrow> maybeReflect st now resp = st)
   \<and> (26 \<le> importanceSinceReflection (s_agent st) \<longrightarrow>
        importanceSinceReflection (s_agent (maybeReflect st now resp)) = 0
        \<and> s_calls (maybeReflect st now resp) =
            s_calls st @ [ReflectionCall (map (\<lambda>r. (rtext r, importance r, rtype r))
                                            (recent (a_memory (s_agent st)) 12))])
   \<and> (resp = None \<or> (\<exists>obj. resp = Some obj \<and> (r_insights obj = None \<or> r_insights obj = Some [])) \<longrightarrow>
        a_memory (s_agent (maybeReflect st now resp)) = a_memory (s_agent st))"
  using maybeReflect_below maybeReflect_reset maybeReflect_calls maybeReflect_no_insights
  by blast

definition ex_sim_due :: sim where
  "ex_sim_due = ex_sim\<lparr>s_agent := ex_agent\<lparr>importanceSinceReflection := 30\<rparr>\<rparr>"

text \<open>
  The fresh agent (accumulator 0) is left alone; the agent with accumulator 30 and a
  missing answer ends with accumulator 0 and the same memory stream.
\<close>

theorem reflection_threshold_and_reset_witness:
  "maybeReflect ex_sim 0 None = ex_sim
   \<and> importanceSinceReflection (s_agent (maybeReflect ex_sim_due 0 None)) = 0
   \<and> a_memory (s_agent (maybeReflect ex_sim_due 0 None)) = a_memory (s_agent ex_sim_due)"
  using reflection_threshold_and_reset [of ex_sim 0 None]
        reflection_threshold_and_reset [of ex_sim_due 0 None]
  by (simp add: ex_sim_def ex_sim_due_def ex_agent_def)

section \<open>Importance and type of stored records\<close>

lemma proposed_importance_cases:
  "proposed_importance v =
     (case parseInt (nullish_or v (JNum 3)) of
        None \<Rightarrow> 3
      | Some n \<Rightarrow> if n = 0 then 3 else clamp n 1 10)"
  by (simp add: proposed_importance_def number_or_def clamp_def split: option.splits)

lemma proposed_importance_range: "1 \<le> proposed_importance v \<and> proposed_importance v \<le> 10"
  by (simp add: proposed_importance_def clamp_def)

lemma rateImportance_range: "1 \<le> rateImportancePaperStyle out \<and> rateImportancePaperStyle out \<le> 10"
  by (simp add: rateImportancePaperStyle_def clamp_def split: option.splits)

lemma stream_ok_add: "stream_ok s \<Longrightarrow> rec_ok r \<Longrightarrow> stream_ok (add s r)"
  by (simp add: stream_ok_def records_add)

lemma rec_ok_new:
  "1 \<le> imp \<Longrightarrow> imp \<le> 10 \<Longrightarrow> ty = ''observation'' \<or> ty = ''action'' \<or> ty = ''reflection'' \<Longrightarrow>
   rec_ok (new_MemoryRecord i t txt imp ty)"
  by (simp add: rec_ok_def new_MemoryRecord_def)

text \<open>
  Claim C6 says that a proposed importance that is numeric and out of range is clamped
  into \<open>[1, 10]\<close>. In fast mode the proposed importance 0 is not clamped to 1: \<^verbatim>\<open>0 || 3\<close> is 3,
  and the record is stored with importance 3. The rating of paper mode does clamp the
  answer \<open>0\<close> to 1.
\<close>

theorem zero_importance_defaults:
  "proposed_importance (JNum 0) = 3
   \<and> clamp (0::int) 1 10 = 1
   \<and> rateImportancePaperStyle ''0'' = 1
   \<and> map importance
        (records (a_memory (s_agent (step ex_sim [ex_agent] 0 ''fast'' (Some ex_decision_zero)
                                          no_ratings None)))) = [3]"
proof -
  have a: "proposed_importance (JNum 0) = 3"
    by (simp add: proposed_importance_def nullish_or_def parseInt_def number_or_def clamp_def)
  have b: "rateImportancePaperStyle ''0'' = 1"
    by (simp add: rateImportancePaperStyle_def first_digits_def is_number_def code_def
        digits_value_def clamp_def)
  have c: "map importance
        (records (a_memory (s_agent (step ex_sim [ex_agent] 0 ''fast'' (Some ex_decision_zero)
                                          no_ratings None)))) = [3]"
    by (simp add: step_def Let_def ex_sim_def ex_agent_def ex_decision_zero_def store_memories_def
        execute_action_def maybeReflect_def a nextId_def records_add new_MemoryStream_def
        new_MemoryRecord_def clamp_def)
  show ?thesis using a b c by (simp add: clamp_def)
qed

text \<open>
  The range and the types themselves hold of every record that \<^verbatim>\<open>seedInitialMemories\<close>,
  \<^verbatim>\<open>step\<close> (in either mode) and \<^verbatim>\<open>maybeReflect\<close> store: each of them keeps a stream whose
  records all have an importance in \<open>[1, 10]\<close> and one of the three types.
\<close>

lemma seed_ok:
  assumes "stream_ok (a_memory (s_agent st))"
  shows "stream_ok (a_memory (s_agent (seedInitialMemories st now)))"
proof -
  let ?f = "\<lambda>(mem, c, imp) t.
                     (let (i, c') = nextId ''seed'' c
                      in (add mem (new_MemoryRecord i now t imp ''observation''), c',
                          max 5 (imp - 1)))"
  let ?P = "\<lambda>(mem, c :: nat, imp :: int). stream_ok mem \<and> 5 \<le> imp \<and> imp \<le> 8"
  have "?P (foldl ?f (a_memory (s_agent st), s_idCounter st, 8) (seed_texts (s_agent st)))"
  proof (rule foldl_inv)
    show "?P (a_memory (s_agent st), s_idCounter st, 8)" using assms by simp
  next
    fix s :: "MemoryStream \<times> nat \<times> int" and x
    assume "?P s"
    then show "?P (?f s x)"
      by (auto simp: nextId_def Let_def intro!: stream_ok_add rec_ok_new split: prod.splits)
  qed
  then show ?thesis
    by (simp add: seedInitialMemories_def Let_def split: prod.splits)
qed

lemma store_memories_ok:
  assumes "stream_ok (a_memory (s_agent st))"
  shows "stream_ok (a_memory (s_agent (store_memories st now mode ratings ms)))"
  unfolding store_memories_def
proof (rule foldl_inv [where P = "\<lambda>st. stream_ok (a_memory (s_agent st))"])
  show "stream_ok (a_memory (s_agent st))" by (rule assms)
next
  fix s :: sim and x :: "nat \<times> mem_item"
  assume h: "stream_ok (a_memory (s_agent s))"
  obtain i m where x: "x = (i, m)" by (cases x)
  show "stream_ok (a_memory (s_agent (case x of (i, m) \<Rightarrow>
              (let txt = js_slice 0 280 (m_text m);
                   ty = (if m_type m = ''action'' then ''action'' else ''observation'');
                   imp0 = proposed_importance (m_importance m);
                   (imp, calls) =
                     (if mode = ''paper''
                      then (rateImportancePaperStyle (ratings i), s_calls s @ [RatingCall txt])
                      else (imp0, s_calls s));
                   (rid, c) = nextId ''mem'' (s_idCounter s);
                   a = s_agent s
               in s\<lparr>s_agent := a\<lparr>a_memory := add (a_memory a) (new_MemoryRecord rid now txt imp ty),
                                    importanceSinceReflection := importanceSinceReflection a + imp\<rparr>,
                      s_idCounter := c, s_calls := calls\<rparr>))))"
    using h proposed_importance_range rateImportance_range
    by (auto simp: x Let_def nextId_def intro!: stream_ok_add rec_ok_new)
qed

lemma execute_action_memory:
  "a_memory (s_agent (execute_action st now perc obj)) = a_memory (s_agent st)"
  by (simp add: execute_action_def Let_def)

lemma maybeReflect_ok:
  assumes "stream_ok (a_memory (s_agent st))"
  shows "stream_ok (a_memory (s_agent (maybeReflect st now resp)))"
proof -
  have loop: "\<And>insights c. stream_ok (fst (foldl (\<lambda>(mem, c) ins.
                 (let (i, c') = nextId ''ref'' c
                  in (add mem (new_MemoryRecord i now (''Insight: '' @ ins) 8 ''reflection''), c')))
               (a_memory (s_agent st), c) insights))"
  proof -
    fix insights and c :: nat
    let ?f = "\<lambda>(mem, c) ins.
                 (let (i, c') = nextId ''ref'' c
                  in (add mem (new_MemoryRecord i now (''Insight: '' @ ins) 8 ''reflection''), c'))"
    have "(\<lambda>(mem, c :: nat). stream_ok mem) (foldl ?f (a_memory (s_agent st), c) insights)"
    proof (rule foldl_inv)
      show "(\<lambda>(mem, c :: nat). stream_ok mem) (a_memory (s_agent st), c)" using assms by simp
    next
      fix s :: "MemoryStream \<times> nat" and x
      assume "(\<lambda>(mem, c :: nat). stream_ok mem) s"
      then show "(\<lambda>(mem, c :: nat). stream_ok mem) (?f s x)"
        by (auto simp: nextId_def Let_def intro!: stream_ok_add rec_ok_new split: prod.splits)
    qed
    then show "stream_ok (fst (foldl ?f (a_memory (s_agent st), c) insights))"
      by (simp add: case_prod_beta)
  qed
  show ?thesis
    using assms loop
    by (auto simp: maybeReflect_def Let_def split: option.splits prod.splits) (metis fst_conv)
qed

lemma step_ok:
  assumes "stream_ok (a_memory (s_agent st))"
  shows "stream_ok (a_memory (s_agent (step st allAgents now mode resp ratings rresp)))"
proof (cases resp)
  case None
  then show ?thesis using assms by (simp add: step_def Let_def moveTowardsDest_frame)
next
  case (Some obj)
  define a1 where "a1 = (if a_dest (s_agent st) \<noteq> None
                          then (moveTowardsDest (s_agent st))\<lparr>currentAction := ''walking''\<rparr>
                          else s_agent st)"
  define st1 where "st1 = st\<lparr>s_agent := a1, s_calls := s_calls st @ [DecisionCall]\<rparr>"
  define st2 where "st2 = st1\<lparr>s_agent := a1\<lparr>lastThought := d_thought obj\<rparr>\<rparr>"
  define st3 where "st3 = (case d_memories obj of None \<Rightarrow> st2
                           | Some ms \<Rightarrow> store_memories st2 now mode ratings ms)"
  define st4 where "st4 = execute_action st3 now (perceive (s_world st) a1 allAgents) obj"
  define st5 where "st5 = st4\<lparr>s_agent := (s_agent st4)\<lparr>a_energy := clamp (a_energy (s_agent st4) - 1) 0 100\<rparr>\<rparr>"
  have eq: "step st allAgents now mode resp ratings rresp = maybeReflect st5 now rresp"
    by (simp only: step_def Let_def Some option.case st5_def st4_def st3_def st2_def st1_def a1_def)
  have "stream_ok (a_memory (s_agent st2))"
    using assms by (simp add: st2_def st1_def a1_def moveTowardsDest_frame)
  then have "stream_ok (a_memory (s_agent st3))"
    unfolding st3_def by (auto intro: store_memories_ok split: option.splits)
  then have "stream_ok (a_memory (s_agent st4))"
    by (simp add: st4_def execute_action_memory)
  then have "stream_ok (a_memory (s_agent st5))"
    by (simp add: st5_def)
  then show ?thesis unfolding eq by (rule maybeReflect_ok)
qed

lemma stream_ok_new: "stream_ok new_MemoryStream"
  by (simp add: stream_ok_def new_MemoryStream_def)

section \<open>Recency\<close>

text \<open>The hours between two times, in doubles.\<close>

lemma base_eq: "double_round (99 / 100) = d099"
  unfolding d099_def by (rule double_round_99)

lemma double_round_zero: "double_round 0 = 0"
  by (simp add: double_round_def)

lemma double_round_nat: "0 \<le> n \<Longrightarrow> n < 2 ^ 53 \<Longrightarrow> double_round (of_int n) = of_int n"
  using double_round_of_int [of n] double_round_zero by (cases "n = 0") simp_all

lemma hours_nonneg: "0 \<le> elapsed_hours ms"
  by (simp add: elapsed_hours_def)

lemma hours_mono: "ms \<le> ms' \<Longrightarrow> elapsed_hours ms \<le> elapsed_hours ms'"
proof -
  assume "ms \<le> ms'"
  then have "double_round (real_of_int ms) \<le> double_round (real_of_int ms')"
    by (intro double_round_mono) simp
  then have "double_round (real_of_int ms) / 3600000 \<le> double_round (real_of_int ms') / 3600000"
    by simp
  then have "double_round (double_round (real_of_int ms) / 3600000)
             \<le> double_round (double_round (real_of_int ms') / 3600000)"
    by (rule double_round_mono)
  then show ?thesis unfolding elapsed_hours_def by linarith
qed

lemma hours_zero: "ms \<le> 0 \<Longrightarrow> elapsed_hours ms = 0"
proof -
  assume "ms \<le> 0"
  then have "double_round (real_of_int ms) \<le> 0" by (intro double_round_nonpos) simp
  then have "double_round (real_of_int ms) / 3600000 \<le> 0" by simp
  then have "double_round (double_round (real_of_int ms) / 3600000) \<le> 0"
    by (rule double_round_nonpos)
  then show ?thesis by (simp add: elapsed_hours_def)
qed

lemma hours_exact:
  assumes "0 \<le> n" "n < 2000000000"
  shows "elapsed_hours (n * 3600000) = of_int n"
proof -
  have a: "double_round (real_of_int (n * 3600000)) = real_of_int (n * 3600000)"
    using assms by (intro double_round_nat) simp_all
  have b: "double_round (real_of_int n) = real_of_int n"
    using assms by (intro double_round_nat) simp_all
  have "real_of_int (n * 3600000) / 3600000 = real_of_int n" by simp
  then show ?thesis using assms(1) unfolding elapsed_hours_def a by (simp add: b)
qed

lemma hours_74460: "268056000000 \<le> ms \<Longrightarrow> 74460 \<le> elapsed_hours ms"
  using hours_mono [of "74460 * 3600000" ms] hours_exact [of 74460] by simp

lemma hours_69000: "ms \<le> 248400000000 \<Longrightarrow> elapsed_hours ms \<le> 69000"
  using hours_mono [of ms "69000 * 3600000"] hours_exact [of 69000] by simp

lemma tiny_le: "(2::real) powr (- 1022) \<le> 1 / 3600000"
proof -
  have "(2::real) powr (- 1022) \<le> 2 powr (- real 22)" by (intro powr_mono) simp_all
  also have "\<dots> = (1 / 2) ^ 22" by (rule two_powr_neg)
  also have "\<dots> \<le> 1 / 3600000" by (simp add: power_divide)
  finally show ?thesis .
qed

text \<open>The rounding of a quotient of hours up to 69000 is off by less than \<open>10^-11\<close>.\<close>

lemma hours_close:
  assumes "0 < ms" "ms \<le> 248400000000"
  shows "\<bar>elapsed_hours ms - real_of_int ms / 3600000\<bar> \<le> 69000 / 2 ^ 53"
proof -
  define z where "z = real_of_int ms / 3600000"
  have a: "double_round (real_of_int ms) = real_of_int ms"
    using assms by (intro double_round_nat) simp_all
  have z1: "1 / 3600000 \<le> z" using assms(1) by (simp add: z_def)
  have zpos: "0 < z" using z1 by simp
  have z2: "z \<le> 69000" using assms(2) by (simp add: z_def)
  have nrm: "2 powr (- 1022) \<le> z" using tiny_le z1 by linarith
  have "\<bar>double_round z - z\<bar> \<le> double_ulp z / 2" using zpos by (rule double_round_error)
  also have "\<dots> \<le> z / 2 ^ 52 / 2" using ulp_normal [OF nrm] by simp
  also have "\<dots> = z / 2 ^ 53" by simp
  also have "\<dots> \<le> 69000 / 2 ^ 53" using z2 by (simp add: divide_right_mono)
  finally have e: "\<bar>double_round z - z\<bar> \<le> 69000 / 2 ^ 53" .
  have "0 \<le> double_round z" using zpos by (intro double_round_nonneg) simp
  then have "elapsed_hours ms = double_round z"
    unfolding elapsed_hours_def a z_def by simp
  then show ?thesis using e by (simp add: z_def)
qed

lemma hours_gap:
  assumes "0 \<le> ms" "ms < ms'" "ms' \<le> 248400000000"
  shows "elapsed_hours ms + 1 / 4000000 \<le> elapsed_hours ms'"
proof -
  have c': "\<bar>elapsed_hours ms' - real_of_int ms' / 3600000\<bar> \<le> 69000 / 2 ^ 53"
    using assms by (intro hours_close) simp_all
  have c: "\<bar>elapsed_hours ms - real_of_int ms / 3600000\<bar> \<le> 69000 / 2 ^ 53"
  proof (cases "ms = 0")
    case True
    then show ?thesis by (simp add: hours_zero)
  next
    case False
    then show ?thesis using assms by (intro hours_close) simp_all
  qed
  have "real_of_int ms + 1 \<le> real_of_int ms'" using assms(2) by linarith
  then have g: "real_of_int ms / 3600000 + 1 / 3600000 \<le> real_of_int ms' / 3600000"
    by (simp add: field_simps)
  have n: "(1 / 4000000 :: real) + 2 * (69000 / 2 ^ 53) \<le> 1 / 3600000" by simp
  show ?thesis using c c' g n by linarith
qed

lemma recency_eq: "recency_at ms = double_round (d099 powr elapsed_hours ms)"
  by (simp add: recency_at_def Math_pow_def base_eq)

lemma recency_one: "ms \<le> 0 \<Longrightarrow> recency_at ms = 1"
  using d099_bounds(1) by (simp add: recency_eq hours_zero double_round_one)

lemma recency_nonneg: "0 \<le> recency_at ms"
  unfolding recency_eq by (intro double_round_nonneg) simp

lemma recency_mono: "ms \<le> ms' \<Longrightarrow> recency_at ms' \<le> recency_at ms"
  unfolding recency_eq
  using d099_bounds by (intro double_round_mono powr_mono' hours_mono) simp_all

lemma recency_underflow: "268056000000 \<le> ms \<Longrightarrow> recency_at ms = 0"
  unfolding recency_eq
  using pow_underflow [OF hours_74460] by (intro double_round_underflow)

lemma recency_strict_step:
  assumes "0 \<le> ms" "ms < ms'" "ms' \<le> 248400000000"
  shows "recency_at ms' < recency_at ms"
  unfolding recency_eq
proof (rule double_round_strict)
  let ?h = "elapsed_hours ms" and ?h' = "elapsed_hours ms'"
  show "0 < d099 powr ?h'" using d099_bounds(1) by simp
  have "?h \<le> 69000" using assms by (intro hours_69000) simp
  then show "2 powr (- 1022) \<le> d099 powr ?h" using hours_nonneg by (intro pow_normal)
  have gap: "1 / 4000000 \<le> ?h' - ?h" using hours_gap [OF assms] by linarith
  have "d099 powr ?h' = d099 powr (?h + (?h' - ?h))" by simp
  also have "\<dots> = d099 powr ?h * d099 powr (?h' - ?h)" by (rule powr_add)
  also have "\<dots> \<le> d099 powr ?h * (1 - 1 / 2 ^ 51)"
    using pow_shrink [OF gap] by (intro mult_left_mono) simp_all
  finally show "d099 powr ?h' \<le> d099 powr ?h * (1 - 1 / 2 ^ 51)" .
qed

lemma recency_floor: "recency_at ms = recency_at (max 0 ms)"
  by (cases "ms \<le> 0") (simp_all add: recency_one max_def)

lemma recency_strict:
  assumes "max 0 ms < ms'" "ms < 248400000000"
  shows "recency_at ms' < recency_at ms"
proof -
  define m where "m = max 0 ms"
  have m: "0 \<le> m" "m < m + 1" "m + 1 \<le> 248400000000" "m + 1 \<le> ms'"
    using assms unfolding m_def by linarith+
  have "recency_at ms' \<le> recency_at (m + 1)" using m(4) by (rule recency_mono)
  also have "\<dots> < recency_at m" using m(1-3) by (rule recency_strict_step)
  also have "\<dots> = recency_at ms" unfolding m_def by (rule recency_floor [symmetric])
  finally show ?thesis .
qed

text \<open>
  Claim C7. The recency of a scored record is \<^verbatim>\<open>Math.pow(0.99, hours)\<close>, where \<open>hours\<close> is the
  time between the record and \<open>now\<close> in hours, floored at 0, all in doubles. It is 1 when no
  time has passed and for a record dated after \<open>now\<close>, it is never negative, and of two
  scorings the one with the longer time elapsed never has the larger recency. It is
  strictly smaller when the shorter (floored) time is below 69000 hours, which are
  248400000000 ms. The claim says strictly decreasing for all times, and that fails: from
  74460 hours on, which are 268056000000 ms or eight and a half years, the power is below
  half the least positive double and the recency is 0.
\<close>

theorem recency_decay:
  "sc_recency (score_record s qv now r) =
     Math_pow (double_round (99 / 100))
       (max 0 (double_round (double_round (real_of_int (now - rtime r)) / 3600000)))
   \<and> double_round (99 / 100) = 4458563631096791 / 4503599627370496
   \<and> (now \<le> rtime r \<longrightarrow> sc_recency (score_record s qv now r) = 1)
   \<and> 0 \<le> sc_recency (score_record s qv now r)
   \<and> (now - rtime r \<le> now' - rtime r' \<longrightarrow>
        sc_recency (score_record s' qv' now' r') \<le> sc_recency (score_record s qv now r))
   \<and> (max 0 (now - rtime r) < now' - rtime r' \<and> now - rtime r < 248400000000 \<longrightarrow>
        sc_recency (score_record s' qv' now' r') < sc_recency (score_record s qv now r))
   \<and> (268056000000 \<le> now - rtime r \<longrightarrow> sc_recency (score_record s qv now r) = 0)"
proof -
  have a: "sc_recency (score_record s qv now r) =
     Math_pow (double_round (99 / 100))
       (max 0 (double_round (double_round (real_of_int (now - rtime r)) / 3600000)))"
    by (simp add: score_record_def Let_def)
  have b: "now \<le> rtime r \<longrightarrow> sc_recency (score_record s qv now r) = 1"
    by (simp add: sc_recency_eq recency_one)
  have c: "0 \<le> sc_recency (score_record s qv now r)"
    by (simp add: sc_recency_eq recency_nonneg)
  have d: "now - rtime r \<le> now' - rtime r' \<longrightarrow>
        sc_recency (score_record s' qv' now' r') \<le> sc_recency (score_record s qv now r)"
    by (simp add: sc_recency_eq recency_mono)
  have e: "max 0 (now - rtime r) < now' - rtime r' \<and> now - rtime r < 248400000000 \<longrightarrow>
        sc_recency (score_record s' qv' now' r') < sc_recency (score_record s qv now r)"
    unfolding sc_recency_eq using recency_strict by blast
  have f: "268056000000 \<le> now - rtime r \<longrightarrow> sc_recency (score_record s qv now r) = 0"
    by (simp add: sc_recency_eq recency_underflow)
  show ?thesis using a double_round_99 b c d e f by blast
qed

text \<open>
  The record \<open>X likes coffee\<close> of time 0 has recency 1 at time 0, a smaller one an hour
  later and a still smaller one after two hours.
\<close>

theorem recency_decay_witness:
  "sc_recency (score_record ex_stream [] 0 ex_coffee) = 1
   \<and> sc_recency (score_record ex_stream [] 3600000 ex_coffee)
       < sc_recency (score_record ex_stream [] 0 ex_coffee)
   \<and> sc_recency (score_record ex_stream [] 7200000 ex_coffee)
       < sc_recency (score_record ex_stream [] 3600000 ex_coffee)"
proof -
  have t: "rtime ex_coffee = 0" by (simp add: ex_coffee_def new_MemoryRecord_def)
  note u = recency_decay [of ex_stream "[]" 0 ex_coffee 3600000 ex_coffee ex_stream "[]"]
  note v = recency_decay [of ex_stream "[]" 3600000 ex_coffee 7200000 ex_coffee ex_stream "[]"]
  have "sc_recency (score_record ex_stream [] 0 ex_coffee) = 1" using u by (simp add: t)
  moreover have "sc_recency (score_record ex_stream [] 3600000 ex_coffee)
       < sc_recency (score_record ex_stream [] 0 ex_coffee)" using u by (simp add: t)
  moreover have "sc_recency (score_record ex_stream [] 7200000 ex_coffee)
       < sc_recency (score_record ex_stream [] 3600000 ex_coffee)" using v by (simp add: t)
  ultimately show ?thesis by blast
qed

text \<open>
  The same record scored 74460 hours and 80000 hours after its time has recency 0 both
  times: the longer time elapsed does not give the strictly smaller recency.
\<close>

theorem recency_underflows:
  "sc_recency (score_record ex_stream [] 268056000000 ex_coffee) = 0
   \<and> sc_recency (score_record ex_stream [] 288000000000 ex_coffee) = 0
   \<and> \<not> sc_recency (score_record ex_stream [] 288000000000 ex_coffee)
         < sc_recency (score_record ex_stream [] 268056000000 ex_coffee)"
proof -
  have t: "rtime ex_coffee = 0" by (simp add: ex_coffee_def new_MemoryRecord_def)
  have a: "sc_recency (score_record ex_stream [] 268056000000 ex_coffee) = 0"
    unfolding sc_recency_eq t by (rule recency_underflow) simp
  have b: "sc_recency (score_record ex_stream [] 288000000000 ex_coffee) = 0"
    unfolding sc_recency_eq t by (rule recency_underflow) simp
  show ?thesis unfolding a b by simp
qed

section \<open>Relevance\<close>

text \<open>
  Claim C8. If the tokens of the query and the tokens of a record's text are disjoint, the
  relevance of the record is 0; so it is for every entry \<^verbatim>\<open>retrieve\<close> returns whose record
  shares no token with the query. The relevance is also 0 when the squares of the weights
  of either TF-IDF vector sum to 0, in particular when the query or the record's text has
  no token.
\<close>

theorem relevance_zero:
  "(set (tokenize q) \<inter> set (tokenize txt) = {} \<longrightarrow>
      sc_relevance (score_record s (tfidf s (count_tokens (tokenize q))) now
                     (new_MemoryRecord i t txt imp ty)) = 0)
   \<and> (\<forall>e \<in> set (retrieve s q now k types).
        set (tokenize q) \<inter> fst ` set (tf (sc_rec e)) = {} \<longrightarrow> sc_relevance e = 0)
   \<and> ((\<Sum>(k, w)\<leftarrow>qv. w * w) = 0 \<or> (\<Sum>(k, w)\<leftarrow>tfidf s (tf r). w * w) = 0 \<longrightarrow>
        sc_relevance (score_record s qv now r) = 0)
   \<and> (tokenize q = [] \<longrightarrow>
        sc_relevance (score_record s (tfidf s (count_tokens (tokenize q))) now r) = 0)
   \<and> (tokenize txt = [] \<longrightarrow>
        sc_relevance (score_record s qv now (new_MemoryRecord i t txt imp ty)) = 0)"
proof -
  let ?qv = "tfidf s (count_tokens (tokenize q))"
  have keys_q: "fst ` set ?qv = set (tokenize q)"
    by (simp add: keys_tfidf keys_count_tokens)
  have a: "set (tokenize q) \<inter> set (tokenize txt) = {} \<longrightarrow>
      sc_relevance (score_record s ?qv now (new_MemoryRecord i t txt imp ty)) = 0"
  proof
    assume "set (tokenize q) \<inter> set (tokenize txt) = {}"
    then have "fst ` set ?qv \<inter> fst ` set (tfidf s (tf (new_MemoryRecord i t txt imp ty))) = {}"
      by (simp add: keys_tfidf keys_count_tokens new_MemoryRecord_def)
    then show "sc_relevance (score_record s ?qv now (new_MemoryRecord i t txt imp ty)) = 0"
      by (simp only: sc_relevance_eq cosineSparse_disjoint)
  qed
  have b: "\<forall>e \<in> set (retrieve s q now k types).
        set (tokenize q) \<inter> fst ` set (tf (sc_rec e)) = {} \<longrightarrow> sc_relevance e = 0"
  proof (intro ballI impI)
    fix e
    assume e: "e \<in> set (retrieve s q now k types)"
      and d: "set (tokenize q) \<inter> fst ` set (tf (sc_rec e)) = {}"
    from e have "e \<in> set (map (score_record s ?qv now) (filter (passes types) (records s)))"
      unfolding retrieve_eq using set_take_subset mset_sort_scored
      by (metis (no_types, lifting) set_mset_mset subsetD)
    then obtain r where r: "e = score_record s ?qv now r" by auto
    then have rr: "sc_rec e = r" by (simp add: score_record_def Let_def)
    from d rr have "fst ` set ?qv \<inter> fst ` set (tfidf s (tf r)) = {}"
      by (simp add: keys_tfidf keys_count_tokens)
    then show "sc_relevance e = 0"
      by (simp only: r sc_relevance_eq cosineSparse_disjoint)
  qed
  have c: "(\<Sum>(k, w)\<leftarrow>qv. w * w) = 0 \<or> (\<Sum>(k, w)\<leftarrow>tfidf s (tf r). w * w) = 0 \<longrightarrow>
        sc_relevance (score_record s qv now r) = 0"
    by (simp only: sc_relevance_eq) (rule impI, rule cosineSparse_zero_norm)
  have d: "tokenize q = [] \<longrightarrow> sc_relevance (score_record s ?qv now r) = 0"
    by (simp add: sc_relevance_eq count_tokens_def tfidf_def cosineSparse_def)
  have e: "tokenize txt = [] \<longrightarrow>
        sc_relevance (score_record s qv now (new_MemoryRecord i t txt imp ty)) = 0"
    by (simp add: sc_relevance_eq count_tokens_def tfidf_def new_MemoryRecord_def
        cosineSparse_zero_norm)
  show ?thesis using a b c d e by blast
qed

lemma tokenize_coffee: "tokenize ''coffee'' = [''coffee'']"
  by code_simp

lemma tokenize_tea: "tokenize ''X dislikes tea'' = [''dislikes'', ''tea'']"
  by code_simp

text \<open>
  The query \<open>coffee\<close> and the record \<open>X dislikes tea\<close> share no token.
\<close>

theorem relevance_zero_witness:
  "sc_relevance (score_record ex_stream (tfidf ex_stream (count_tokens (tokenize ''coffee''))) 0 ex_tea) = 0"
proof -
  have h: "set (tokenize ''coffee'') \<inter> set (tokenize ''X dislikes tea'') = {}"
    by (simp add: tokenize_coffee tokenize_tea)
  show ?thesis
    using h relevance_zero [of "''coffee''" "''X dislikes tea''" ex_stream 0 "(''mem'', 2)" 0 3 "''observation''"]
    by (simp add: ex_tea_def)
qed

section \<open>Document frequencies\<close>

lemma df_mono_op: "df_count (df s) t \<le> df_count (df (snd (exec_op s op))) t"
  by (cases op) (simp_all add: df_count_add)

lemma df_mono_ops: "df_count (df s) t \<le> df_count (df (exec_ops s ops)) t"
  unfolding exec_ops_def
proof (induction ops arbitrary: s)
  case Nil
  then show ?case by simp
next
  case (Cons op ops)
  have "df_count (df s) t \<le> df_count (df (snd (exec_op s op))) t" by (rule df_mono_op)
  also have "\<dots> \<le> df_count (df (foldl (\<lambda>s op. snd (exec_op s op)) (snd (exec_op s op)) ops)) t"
    by (rule Cons.IH)
  finally show ?case by simp
qed

text \<open>
  Claim C9. \<^verbatim>\<open>add\<close> appends the record and raises the document frequency of each token of
  the record by exactly 1, once however often the token occurs in it, and of no other
  token. Of the three calls only \<^verbatim>\<open>add\<close> changes the stream: \<^verbatim>\<open>retrieve\<close> and \<^verbatim>\<open>recent\<close> return
  their result and leave the records and the frequencies as they are. So along any
  sequence of calls the frequency of a token never goes down: it is at least what it was
  at the start, and after more calls at least what it was after fewer.
\<close>

theorem df_only_grows:
  "df_count (df (add s r)) t = df_count (df s) t + (if t \<in> set (tokens r) then 1 else 0)
   \<and> records (add s r) = records s @ [r]
   \<and> exec_op s (Add r) = (Nothing, add s r)
   \<and> exec_op s (Retrieve q now k types) = (Scored (retrieve s q now k types), s)
   \<and> exec_op s (Recent n) = (Records (recent s n), s)
   \<and> df_count (df s) t \<le> df_count (df (exec_ops s ops)) t
   \<and> df_count (df (exec_ops s ops)) t \<le> df_count (df (exec_ops s (ops @ ops'))) t"
proof -
  have e: "exec_ops s (ops @ ops') = exec_ops (exec_ops s ops) ops'"
    by (simp add: exec_ops_def)
  show ?thesis
    by (simp add: df_count_add records_add df_mono_ops e)
qed

section \<open>The most recent records\<close>

text \<open>
  For a positive \<open>n\<close>, \<^verbatim>\<open>recent(n)\<close> is the last \<open>n\<close> records in insertion order, all of them
  when the stream is shorter.
\<close>

lemma recent_last_n:
  "0 < n \<Longrightarrow> recent s n = drop (length (records s) - n) (records s)"
  by (simp add: recent_def js_slice_from_last)

text \<open>
  Claim C10 says that \<^verbatim>\<open>recent(0)\<close> returns no records. \<^verbatim>\<open>slice(-0)\<close> is \<^verbatim>\<open>slice(0)\<close>: on the
  stream of the two records \<^verbatim>\<open>recent(0)\<close> returns both, while \<^verbatim>\<open>recent(1)\<close> returns the last.
\<close>

theorem recent_zero_returns_all:
  "recent ex_stream 0 = [ex_coffee, ex_tea]
   \<and> recent ex_stream 0 \<noteq> []
   \<and> recent ex_stream 1 = [ex_tea]"
  by (simp add: recent_def js_slice_from_def js_index_def ex_stream_def add_def new_MemoryStream_def)

end
